theory Spec2Isabelle
  imports Main "HOL-Library.Sublist" "HOL-Library.Multiset"
begin

section \<open>Strings\<close>

text \<open>
  Go strings are byte sequences; \<open>string\<close> is a list of 8-bit characters. The three
  functions of package \<open>strings\<close> that the provider and the SDK use are written out as
  their documentation defines them, for a one-byte cutset and a one-byte separator
  (the code only ever passes \<open>"."\<close>).
\<close>

definition Trim :: "string \<Rightarrow> char \<Rightarrow> string" where
  \<comment> \<open>\<open>strings.Trim(s, cutset)\<close>: all leading and trailing bytes of the cutset removed.\<close>
  "Trim s c = rev (dropWhile (\<lambda>x. x = c) (rev (dropWhile (\<lambda>x. x = c) s)))"

fun splitFrom :: "char \<Rightarrow> string \<Rightarrow> string \<Rightarrow> string list" where
  "splitFrom sep cur [] = [cur]"
| "splitFrom sep cur (x # xs) =
     (if x = sep then cur # splitFrom sep [] xs else splitFrom sep (cur @ [x]) xs)"

definition Split :: "string \<Rightarrow> char \<Rightarrow> string list" where
  \<comment> \<open>\<open>strings.Split(s, sep)\<close>: the substrings between separators; never empty.\<close>
  "Split s sep = splitFrom sep [] s"

fun Join :: "string list \<Rightarrow> string \<Rightarrow> string" where
  \<comment> \<open>\<open>strings.Join(elems, sep)\<close>\<close>
  "Join [] sep = []"
| "Join [p] sep = p"
| "Join (p # q # ps) sep = p @ sep @ Join (q # ps) sep"

section \<open>Endpoints and change sets\<close>

text \<open>
  \<open>endpoint.Endpoint\<close> and \<open>plan.Changes\<close> of external-dns, with the fields the provider
  reads.
\<close>

record endpoint =
  DNSName :: string
  RecordType :: string
  Targets :: "string list"
  RecordTTL :: int

record changes =
  Create :: "endpoint list"
  UpdateOld :: "endpoint list"
  UpdateNew :: "endpoint list"
  Delete :: "endpoint list"

section \<open>Zone resolver: \<open>extractAllZones\<close> and \<open>zoneFromDNSNameGetter\<close>\<close>

definition extractAllZones :: "string \<Rightarrow> string list" where
  "extractAllZones dnsName =
     (let parts = Split (Trim dnsName CHR ''.'') CHR ''.'' in
      if length parts < 2 then []
      else map (\<lambda>i. Join (drop i parts) ''.'') [0 ..< length parts - 1])"

definition searchMap :: "string list \<Rightarrow> (string \<rightharpoonup> string)" where
  \<comment> \<open>the loop \<open>search[zone] = strings.Trim(zone, ".")\<close> over \<open>existingZones.Filters\<close>\<close>
  "searchMap filters = foldl (\<lambda>search zone. search(zone \<mapsto> Trim zone CHR ''.'')) Map.empty filters"

fun lookupZones :: "(string \<rightharpoonup> string) \<Rightarrow> string list \<Rightarrow> string" where
  \<comment> \<open>the body of the returned closure, over \<open>extractAllZones(name)\<close>\<close>
  "lookupZones search [] = ''''"
| "lookupZones search (possibleZone # rest) =
     (case search possibleZone of
        Some result \<Rightarrow> result
      | None \<Rightarrow> lookupZones search rest)"

definition zoneFromDNSNameGetter :: "string list \<Rightarrow> string \<Rightarrow> string" where
  \<comment> \<open>The first argument is \<open>p.GetDomainFilter().Filters\<close>; the result is the closure.\<close>
  "zoneFromDNSNameGetter existingZones name =
     lookupZones (searchMap existingZones) (extractAllZones name)"

text \<open>
  The resolver in the spec's words: the names of the suffixes of the label list that
  have at least two labels, longest first.
\<close>

definition labelSuffixes :: "string \<Rightarrow> string list" where
  "labelSuffixes name =
     [Join ls ''.''. ls \<leftarrow> rev (suffixes (Split (Trim name CHR ''.'') CHR ''.'')), 2 \<le> length ls]"

section \<open>Content differ: \<open>unexistingTargets\<close>\<close>

fun targetExists :: "string list \<Rightarrow> string \<Rightarrow> bool" where
  \<comment> \<open>the inner loop setting \<open>exist\<close>\<close>
  "targetExists [] fromTar = False"
| "targetExists (curTar # rest) fromTar =
     (if curTar = fromTar then True else targetExists rest fromTar)"

fun appendMissing :: "string list \<Rightarrow> string list \<Rightarrow> string list" where
  \<comment> \<open>the loop over \<open>fromTar\<close>: appended to \<open>result\<close> unless it exists in the other list\<close>
  "appendMissing [] others = []"
| "appendMissing (fromTar # rest) others =
     (if targetExists others fromTar then appendMissing rest others
      else fromTar # appendMissing rest others)"

fun unexistingTargets :: "endpoint \<Rightarrow> endpoint list \<Rightarrow> bool \<Rightarrow> string list" where
  "unexistingTargets existing [] diffFromExisting = []"
| "unexistingTargets existing (compare # toCompare) diffFromExisting =
     (if RecordType compare \<noteq> RecordType existing \<or> DNSName compare \<noteq> DNSName existing
      then unexistingTargets existing toCompare diffFromExisting
      else if diffFromExisting then appendMissing (Targets existing) (Targets compare)
      else appendMissing (Targets compare) (Targets existing))"

section \<open>Errors\<close>

text \<open>
  Go errors as values. \<open>APIError\<close> is the SDK's error type (status code and message),
  \<open>Errorf\<close> an error that is only a message, and \<open>Wrap msg err\<close> is
  \<open>fmt.Errorf("<msg>: %w", err)\<close>, the only form of wrapping in the code.
\<close>

datatype error =
    APIError int string
  | Errorf string
  | Wrap string error

fun asAPIError :: "error \<Rightarrow> (int \<times> string) option" where
  \<comment> \<open>\<open>errors.As(err, new(APIError))\<close>: the first \<open>APIError\<close> of the chain\<close>
  "asAPIError (APIError code msg) = Some (code, msg)"
| "asAPIError (Errorf msg) = None"
| "asAPIError (Wrap msg err) = asAPIError err"

definition errSafeWrap :: "string \<Rightarrow> error option \<Rightarrow> error option" where
  "errSafeWrap msg err = (case err of None \<Rightarrow> None | Some e \<Rightarrow> Some (Wrap msg e))"

section \<open>The SDK's data\<close>

text \<open>
  A dynamic value (\<open>any\<close>) of a record's content is a string, an array, or another
  scalar (a number, a boolean, nil); the code only ever prints such a scalar with
  \<open>fmt.Sprint\<close>, so it is kept as the text \<open>fmt.Sprint\<close> gives for it. Where two
  structs of the SDK have a field of the same name, the field carries the name of its
  struct here: \<open>RRSet.Type\<close> and \<open>RRSet.Meta\<close> are \<open>RRType\<close> and \<open>RRSetMeta\<close>, the fields of
  \<open>ZoneRecord\<close> start with \<open>Rec\<close>, and \<open>Zone.Records\<close> is \<open>ZoneRecords\<close>.
\<close>

datatype any =
    AString string
  | AOther string
  | AArray "any list"

record ResourceRecord =
  Content :: "any list"
  Meta :: "(string \<times> any) list"
  Enabled :: bool

record RRSet =
  RRType :: string
  TTL :: int
  Records :: "ResourceRecord list"
  Filters :: "(nat \<times> string \<times> bool) list"
  RRSetMeta :: "(string \<times> any) list"

record ZoneRecord =
  RecName :: string
  RecType :: string
  RecTTL :: nat
  ShortAnswers :: "string list"

record Zone =
  Name :: string
  ZoneRecords :: "ZoneRecord list"

record ListZones =
  Zones :: "Zone list"
  TotalAmount :: int
  Error :: string

definition ToLower :: "string \<Rightarrow> string" where
  \<comment> \<open>\<open>strings.ToLower\<close> on the ASCII letters; its result is only compared with ASCII
      literals, which no other letter lowers into.\<close>
  "ToLower s =
     map (\<lambda>c. case map_of (zip ''ABCDEFGHIJKLMNOPQRSTUVWXYZ'' ''abcdefghijklmnopqrstuvwxyz'') c of
                 Some l \<Rightarrow> l | None \<Rightarrow> c) s"

definition ContentFromValue :: "(string \<Rightarrow> string \<Rightarrow> any list) \<Rightarrow> string \<Rightarrow> string \<Rightarrow> any list" where
  \<comment> \<open>\<open>ToRecordType(recordType, content).ToContent()\<close>. The converters of the MX, CAA, SRV
      and HTTPS/SCVB types parse numbers with \<open>strconv\<close> (floating point for HTTPS) and are
      the parameter \<open>structured\<close>; every other type is \<open>RecordTypeAny\<close>.\<close>
  "ContentFromValue structured recordType content =
     (let rType = ToLower recordType in
      if rType = ''mx'' \<or> rType = ''caa'' \<or> rType = ''srv'' \<or> rType = ''https'' \<or> rType = ''scvb''
      then structured rType content
      else [AString content])"

definition SetContent :: "(string \<Rightarrow> string \<Rightarrow> any list) \<Rightarrow> ResourceRecord \<Rightarrow> string \<Rightarrow> string \<Rightarrow> ResourceRecord" where
  "SetContent structured r recordType val = r\<lparr>Content := ContentFromValue structured recordType val\<rparr>"

section \<open>The provider: \<open>GetDomainFilter\<close> and \<open>ApplyChanges\<close>\<close>

text \<open>
  The provider reaches the remote service through the interface \<open>dnsManager\<close> and runs
  its remote calls as tasks of two \<open>errgroup\<close> groups. The model follows the
  orchestrating goroutine: it records, in order, every task handed to a group
  (\<open>Go\<close>) and every wait on a group (\<open>Wait\<close>). What the tasks return is an input:
  \<open>outcome env g i\<close> is what the remote call of the \<open>i\<close>-th task handed to group \<open>g\<close>
  returned, and \<open>firstError env g\<close> selects which of the failed tasks of \<open>g\<close> failed
  first, the error \<open>Wait\<close> reports. Library functions of external-dns are inputs too.
  Log output is not modelled; the counters of \<open>appliedChanges\<close> are natural numbers.
\<close>

datatype call =
    DeleteRRSetRecordCall string string string "string list"
  | AddZoneRRSetCall string string string "ResourceRecord list" int

record task =
  errMsg :: string
  remoteCall :: call

datatype group = gr1 | gr2

datatype event = Go group task | Wait group

record env =
  hasChanges :: "changes \<Rightarrow> bool"
  newDomainFilter :: "string list \<Rightarrow> string list"
  structuredContent :: "string \<Rightarrow> string \<Rightarrow> any list"
  zoneListing :: "Zone list \<times> error option"
  outcome :: "group \<Rightarrow> nat \<Rightarrow> error option"
  firstError :: "group \<Rightarrow> nat"

record applyResult =
  events :: "event list"
  returned :: "error option"
  created :: nat
  deleted :: nat
  updated :: nat

definition GetDomainFilter :: "env \<Rightarrow> string list" where
  \<comment> \<open>The \<open>Filters\<close> of the result. \<open>zoneListing env\<close> is what
      \<open>p.client.AllZonesWithRecords(context.Background(), nil)\<close> returned.\<close>
  "GetDomainFilter env =
     (case zoneListing env of
        (zs, Some err) \<Rightarrow> []
      | (zs, None) \<Rightarrow> newDomainFilter env (concat (map (\<lambda>z. [Name z, ''.'' @ Name z]) zs)))"

fun collectValues ::
  "bool \<Rightarrow> (string \<Rightarrow> string) \<Rightarrow> (string \<Rightarrow> 'v) \<Rightarrow> string list \<Rightarrow>
     nat \<times> 'v list \<times> string list \<Rightarrow> nat \<times> 'v list \<times> string list" where
  \<comment> \<open>The loop over the contents of one record, the same in the four phases: the counter
      goes up, and outside a dry run the value and its message are appended.\<close>
  "collectValues dryRun msgOf valueOf [] acc = acc"
| "collectValues dryRun msgOf valueOf (content # rest) (n, recordValues, msgs) =
     (if dryRun then collectValues dryRun msgOf valueOf rest (n + 1, recordValues, msgs)
      else collectValues dryRun msgOf valueOf rest
             (n + 1, recordValues @ [valueOf content], msgs @ [msgOf content]))"

definition recordMsg :: "string \<Rightarrow> endpoint \<Rightarrow> string \<Rightarrow> string" where
  \<comment> \<open>\<open>fmt.Sprintf("<what> %s %s %s", DNSName, RecordType, content)\<close>\<close>
  "recordMsg what e content = what @ '' '' @ DNSName e @ '' '' @ RecordType e @ '' '' @ content"

definition newRecord :: "(string \<Rightarrow> string \<Rightarrow> any list) \<Rightarrow> endpoint \<Rightarrow> string \<Rightarrow> ResourceRecord" where
  \<comment> \<open>\<open>rr := gdns.ResourceRecord{Enabled: true}; rr.SetContent(c.RecordType, content)\<close>\<close>
  "newRecord structured c content =
     SetContent structured \<lparr>Content = [], Meta = [], Enabled = True\<rparr> (RecordType c) content"

fun teardownLoop ::
  "bool \<Rightarrow> (string \<Rightarrow> string) \<Rightarrow> endpoint list \<Rightarrow> endpoint list \<Rightarrow>
     nat \<times> event list \<Rightarrow> nat \<times> event list" where
  \<comment> \<open>"prepare zone to add changes by removing outdated records"\<close>
  "teardownLoop dryRun extractZone updateOld [] st = st"
| "teardownLoop dryRun extractZone updateOld (d # ds) (n, evs) =
     (let zone = extractZone (DNSName d) in
      if zone = '''' then teardownLoop dryRun extractZone updateOld ds (n, evs)
      else
        (case collectValues dryRun (recordMsg ''update old'' d) (\<lambda>content. content)
                (unexistingTargets d updateOld False) (n, [], []) of
           (n', recordValues, msgs) \<Rightarrow>
             if length recordValues = 0 then teardownLoop dryRun extractZone updateOld ds (n', evs)
             else teardownLoop dryRun extractZone updateOld ds
                    (n', evs @ [Go gr2 \<lparr>errMsg = Join msgs ''; '',
                          remoteCall = DeleteRRSetRecordCall zone (DNSName d) (RecordType d) recordValues\<rparr>])))"

fun deleteLoop ::
  "bool \<Rightarrow> (string \<Rightarrow> string) \<Rightarrow> endpoint list \<Rightarrow> nat \<times> event list \<Rightarrow> nat \<times> event list" where
  \<comment> \<open>"remove deleted records"\<close>
  "deleteLoop dryRun extractZone [] st = st"
| "deleteLoop dryRun extractZone (d # ds) (n, evs) =
     (let zone = extractZone (DNSName d) in
      if zone = '''' then deleteLoop dryRun extractZone ds (n, evs)
      else
        (case collectValues dryRun (recordMsg ''delete'' d) (\<lambda>content. content)
                (Targets d) (n, [], []) of
           (n', recordValues, msgs) \<Rightarrow>
             deleteLoop dryRun extractZone ds
               (n', evs @ [Go gr1 \<lparr>errMsg = Join msgs ''; '',
                     remoteCall = DeleteRRSetRecordCall zone (DNSName d) (RecordType d) recordValues\<rparr>])))"

fun createLoop ::
  "bool \<Rightarrow> (string \<Rightarrow> string \<Rightarrow> any list) \<Rightarrow> (string \<Rightarrow> string) \<Rightarrow> endpoint list \<Rightarrow>
     nat \<times> event list \<Rightarrow> nat \<times> event list" where
  \<comment> \<open>"add created records"\<close>
  "createLoop dryRun structured extractZone [] st = st"
| "createLoop dryRun structured extractZone (c # cs) (n, evs) =
     (let zone = extractZone (DNSName c) in
      if zone = '''' \<or> RecordType c = ''TXT'' then createLoop dryRun structured extractZone cs (n, evs)
      else
        (case collectValues dryRun (recordMsg ''create'' c) (newRecord structured c)
                (Targets c) (n, [], []) of
           (n', recordValues, msgs) \<Rightarrow>
             createLoop dryRun structured extractZone cs
               (n', evs @ [Go gr1 \<lparr>errMsg = Join msgs ''; '',
                     remoteCall = AddZoneRRSetCall zone (DNSName c) (RecordType c) recordValues (RecordTTL c)\<rparr>])))"

fun updateAddLoop ::
  "bool \<Rightarrow> (string \<Rightarrow> string \<Rightarrow> any list) \<Rightarrow> (string \<Rightarrow> string) \<Rightarrow> endpoint list \<Rightarrow>
     endpoint list \<Rightarrow> nat \<times> event list \<Rightarrow> nat \<times> event list" where
  \<comment> \<open>"add changes"\<close>
  "updateAddLoop dryRun structured extractZone updateOld [] st = st"
| "updateAddLoop dryRun structured extractZone updateOld (c # cs) (n, evs) =
     (let zone = extractZone (DNSName c) in
      if zone = '''' then updateAddLoop dryRun structured extractZone updateOld cs (n, evs)
      else
        (case collectValues dryRun (recordMsg ''update new'' c) (newRecord structured c)
                (unexistingTargets c updateOld True) (n, [], []) of
           (n', recordValues, msgs) \<Rightarrow>
             if length recordValues = 0
             then updateAddLoop dryRun structured extractZone updateOld cs (n', evs)
             else updateAddLoop dryRun structured extractZone updateOld cs
                    (n', evs @ [Go gr1 \<lparr>errMsg = Join msgs ''; '',
                          remoteCall = AddZoneRRSetCall zone (DNSName c) (RecordType c) recordValues (RecordTTL c)\<rparr>])))"

definition groupTasks :: "group \<Rightarrow> event list \<Rightarrow> task list" where
  \<comment> \<open>the tasks handed so far to a group\<close>
  "groupTasks g evs = concat (map (\<lambda>e. case e of Go g' t \<Rightarrow> if g' = g then [t] else [] | Wait g' \<Rightarrow> []) evs)"

definition taskErrors :: "(nat \<Rightarrow> error option) \<Rightarrow> task list \<Rightarrow> error list" where
  \<comment> \<open>the errors the tasks return: \<open>errSafeWrap(strings.Join(errMsg, "; "), <remote call>)\<close>\<close>
  "taskErrors out ts =
     concat (map (\<lambda>(i, t). case errSafeWrap (errMsg t) (out i) of None \<Rightarrow> [] | Some e \<Rightarrow> [e])
                 (enumerate 0 ts))"

definition WaitGroup :: "nat \<Rightarrow> error list \<Rightarrow> error option" where
  \<comment> \<open>\<open>errgroup.Group.Wait\<close>: nil when no task failed, else the error of the task that
      failed first.\<close>
  "WaitGroup pick errs = (if errs = [] then None else Some (errs ! (pick mod length errs)))"

definition ApplyChanges :: "env \<Rightarrow> bool \<Rightarrow> changes \<Rightarrow> applyResult" where
  "ApplyChanges env dryRun chs =
     (if \<not> hasChanges env chs
      then \<lparr>events = [], returned = None, created = 0, deleted = 0, updated = 0\<rparr>
      else
        let extractZone = zoneFromDNSNameGetter (GetDomainFilter env) in
        case teardownLoop dryRun extractZone (UpdateOld chs) (UpdateNew chs) (0, []) of
          (nUpdated, evs1) \<Rightarrow>
        case deleteLoop dryRun extractZone (Delete chs) (0, evs1) of
          (nDeleted, evs2) \<Rightarrow>
        case createLoop dryRun (structuredContent env) extractZone (Create chs) (0, evs2) of
          (nCreated, evs3) \<Rightarrow>
        let evs4 = evs3 @ [Wait gr2] in
        case WaitGroup (firstError env gr2) (taskErrors (outcome env gr2) (groupTasks gr2 evs4)) of
          Some err \<Rightarrow>
            \<lparr>events = evs4, returned = Some (Wrap ''gcore: apply changes'' err),
             created = nCreated, deleted = nDeleted, updated = nUpdated\<rparr>
        | None \<Rightarrow>
            (case updateAddLoop dryRun (structuredContent env) extractZone (UpdateOld chs)
                    (UpdateNew chs) (nUpdated, evs4) of
               (nUpdated', evs5) \<Rightarrow>
                 let evs6 = evs5 @ [Wait gr1] in
                 case WaitGroup (firstError env gr1) (taskErrors (outcome env gr1) (groupTasks gr1 evs6)) of
                   Some err \<Rightarrow>
                     \<lparr>events = evs6, returned = Some (Wrap ''gcore: apply changes'' err),
                      created = nCreated, deleted = nDeleted, updated = nUpdated'\<rparr>
                 | None \<Rightarrow>
                     \<lparr>events = evs6, returned = None,
                      created = nCreated, deleted = nDeleted, updated = nUpdated'\<rparr>))"

section \<open>The tasks of each phase, in closed form\<close>

text \<open>
  What each loop of \<open>ApplyChanges\<close> hands to its group for one endpoint (no task or one
  task), and the tasks of a whole pass. The loops are proved equal to these below.
\<close>

definition teardownTasksOf :: "bool \<Rightarrow> (string \<Rightarrow> string) \<Rightarrow> endpoint list \<Rightarrow> endpoint \<Rightarrow> task list" where
  "teardownTasksOf dryRun extractZone updateOld d =
     (let zone = extractZone (DNSName d); stale = unexistingTargets d updateOld False in
      if zone = '''' \<or> dryRun \<or> stale = [] then []
      else [\<lparr>errMsg = Join (map (recordMsg ''update old'' d) stale) ''; '',
             remoteCall = DeleteRRSetRecordCall zone (DNSName d) (RecordType d) stale\<rparr>])"

definition deleteTasksOf :: "bool \<Rightarrow> (string \<Rightarrow> string) \<Rightarrow> endpoint \<Rightarrow> task list" where
  "deleteTasksOf dryRun extractZone d =
     (let zone = extractZone (DNSName d); values = (if dryRun then [] else Targets d) in
      if zone = '''' then []
      else [\<lparr>errMsg = Join (map (recordMsg ''delete'' d) values) ''; '',
             remoteCall = DeleteRRSetRecordCall zone (DNSName d) (RecordType d) values\<rparr>])"

definition createTasksOf ::
  "bool \<Rightarrow> (string \<Rightarrow> string \<Rightarrow> any list) \<Rightarrow> (string \<Rightarrow> string) \<Rightarrow> endpoint \<Rightarrow> task list" where
  "createTasksOf dryRun structured extractZone c =
     (let zone = extractZone (DNSName c); values = (if dryRun then [] else Targets c) in
      if zone = '''' \<or> RecordType c = ''TXT'' then []
      else [\<lparr>errMsg = Join (map (recordMsg ''create'' c) values) ''; '',
             remoteCall = AddZoneRRSetCall zone (DNSName c) (RecordType c)
                            (map (newRecord structured c) values) (RecordTTL c)\<rparr>])"

definition updateAddTasksOf ::
  "bool \<Rightarrow> (string \<Rightarrow> string \<Rightarrow> any list) \<Rightarrow> (string \<Rightarrow> string) \<Rightarrow> endpoint list \<Rightarrow> endpoint \<Rightarrow> task list" where
  "updateAddTasksOf dryRun structured extractZone updateOld c =
     (let zone = extractZone (DNSName c); fresh = unexistingTargets c updateOld True in
      if zone = '''' \<or> dryRun \<or> fresh = [] then []
      else [\<lparr>errMsg = Join (map (recordMsg ''update new'' c) fresh) ''; '',
             remoteCall = AddZoneRRSetCall zone (DNSName c) (RecordType c)
                            (map (newRecord structured c) fresh) (RecordTTL c)\<rparr>])"

definition teardownTasks :: "env \<Rightarrow> bool \<Rightarrow> changes \<Rightarrow> task list" where
  "teardownTasks env dryRun chs =
     concat (map (teardownTasksOf dryRun (zoneFromDNSNameGetter (GetDomainFilter env)) (UpdateOld chs)) (UpdateNew chs))"

definition deleteTasks :: "env \<Rightarrow> bool \<Rightarrow> changes \<Rightarrow> task list" where
  "deleteTasks env dryRun chs =
     concat (map (deleteTasksOf dryRun (zoneFromDNSNameGetter (GetDomainFilter env))) (Delete chs))"

definition createTasks :: "env \<Rightarrow> bool \<Rightarrow> changes \<Rightarrow> task list" where
  "createTasks env dryRun chs =
     concat (map (createTasksOf dryRun (structuredContent env) (zoneFromDNSNameGetter (GetDomainFilter env))) (Create chs))"

definition updateAddTasks :: "env \<Rightarrow> bool \<Rightarrow> changes \<Rightarrow> task list" where
  "updateAddTasks env dryRun chs =
     concat (map (updateAddTasksOf dryRun (structuredContent env) (zoneFromDNSNameGetter (GetDomainFilter env)) (UpdateOld chs)) (UpdateNew chs))"

definition teardownFailed :: "env \<Rightarrow> bool \<Rightarrow> changes \<Rightarrow> bool" where
  \<comment> \<open>some task of the teardown group returned an error\<close>
  "teardownFailed env dryRun chs \<longleftrightarrow> taskErrors (outcome env gr2) (teardownTasks env dryRun chs) \<noteq> []"

definition dispatched :: "event list \<Rightarrow> task list" where
  \<comment> \<open>every remote call handed to a group, in order\<close>
  "dispatched evs = concat (map (\<lambda>e. case e of Go g t \<Rightarrow> [t] | Wait g \<Rightarrow> []) evs)"

section \<open>The SDK client\<close>

text \<open>
  The methods of \<open>gdns.Client\<close> that the provider reaches. Each sends its requests
  through \<open>c.do\<close>; the transport and the remote service behind it are a parameter: a
  state \<open>'s\<close> and, for each kind of request on an RRSet, what \<open>c.do\<close> returns and the
  state it leaves. A URI is kept as the list of elements the code passes to
  \<open>path.Join\<close>. The methods \<open>c.Zone\<close> and \<open>c.RRSet\<close> are \<open>getZone\<close> and \<open>getRRSet\<close> here.
\<close>

type_synonym uri = "string list"

record 's transport =
  doGet :: "uri \<Rightarrow> 's \<Rightarrow> (error + RRSet) \<times> 's"
  doPost :: "uri \<Rightarrow> RRSet \<Rightarrow> 's \<Rightarrow> error option \<times> 's"
  doPut :: "uri \<Rightarrow> RRSet \<Rightarrow> 's \<Rightarrow> error option \<times> 's"
  doDelete :: "uri \<Rightarrow> 's \<Rightarrow> error option \<times> 's"

definition rrsetURI :: "string \<Rightarrow> string \<Rightarrow> string \<Rightarrow> uri" where
  \<comment> \<open>\<open>path.Join("/v2/zones", zone, name, recordType)\<close> after the two \<open>strings.Trim\<close>\<close>
  "rrsetURI zone name recordType = [''/v2/zones'', Trim zone CHR ''.'', Trim name CHR ''.'', recordType]"

fun Sprint :: "any \<Rightarrow> string" where
  \<comment> \<open>\<open>fmt.Sprint\<close> of one dynamic value\<close>
  "Sprint (AString s) = s"
| "Sprint (AOther s) = s"
| "Sprint (AArray vs) = ''['' @ Join (map Sprint vs) '' '' @ '']''"

definition valuesJoin :: "any list \<Rightarrow> string" where
  "valuesJoin vs = Trim (concat (map (\<lambda>v. '','' @ Sprint v) vs)) CHR '',''"

fun contentPart :: "any \<Rightarrow> string" where
  \<comment> \<open>one element of \<open>parts\<close> in \<open>ContentToString\<close>; the quote is byte 0x22\<close>
  "contentPart (AArray arr) =
     (case arr of
        [] \<Rightarrow> ''''
      | k # vs \<Rightarrow>
          let key = Sprint k in
          if key = ''alpn'' then key @ ''='' @ [CHR 0x22] @ valuesJoin vs @ [CHR 0x22]
          else if length arr = 1 then key
          else key @ ''='' @ valuesJoin vs)"
| "contentPart v = Sprint v"

definition ContentToString :: "ResourceRecord \<Rightarrow> string" where
  "ContentToString r = Join (map contentPart (Content r)) '' ''"

definition getRRSet :: "'s transport \<Rightarrow> string \<Rightarrow> string \<Rightarrow> string \<Rightarrow> 's \<Rightarrow> (error + RRSet) \<times> 's" where
  "getRRSet c zone name recordType s =
     (case doGet c (rrsetURI zone name recordType) s of
        (Inl err, s') \<Rightarrow>
          (Inl (Wrap (''request '' @ Trim zone CHR ''.'' @ '' -> '' @ Trim name CHR ''.'') err), s')
      | (Inr result, s') \<Rightarrow> (Inr result, s'))"

definition CreateRRSet :: "'s transport \<Rightarrow> string \<Rightarrow> string \<Rightarrow> string \<Rightarrow> RRSet \<Rightarrow> 's \<Rightarrow> error option \<times> 's" where
  "CreateRRSet c zone name recordType record s = doPost c (rrsetURI zone name recordType) record s"

definition UpdateRRSet :: "'s transport \<Rightarrow> string \<Rightarrow> string \<Rightarrow> string \<Rightarrow> RRSet \<Rightarrow> 's \<Rightarrow> error option \<times> 's" where
  "UpdateRRSet c zone name recordType record s = doPut c (rrsetURI zone name recordType) record s"

definition isNotFound :: "error \<Rightarrow> bool" where
  \<comment> \<open>\<open>errors.As(err, errAPI) && errAPI.StatusCode == http.StatusNotFound\<close>\<close>
  "isNotFound err = (case asAPIError err of Some (code, msg) \<Rightarrow> code = 404 | None \<Rightarrow> False)"

definition DeleteRRSet :: "'s transport \<Rightarrow> string \<Rightarrow> string \<Rightarrow> string \<Rightarrow> 's \<Rightarrow> error option \<times> 's" where
  "DeleteRRSet c zone name recordType s =
     (case doDelete c (rrsetURI zone name recordType) s of
        (Some err, s') \<Rightarrow>
          if isNotFound err then (None, s')
          else (Some (Wrap ''delete record request'' err), s')
      | (None, s') \<Rightarrow> (None, s'))"

fun remainingRecords :: "string list \<Rightarrow> ResourceRecord list \<Rightarrow> ResourceRecord list" where
  \<comment> \<open>the loop labelled \<open>LOOP\<close>: records without content and records whose text is one of
      \<open>contents\<close> are left out of \<open>newRecords\<close>\<close>
  "remainingRecords contents [] = []"
| "remainingRecords contents (record # rest) =
     (if length (Content record) = 0 then remainingRecords contents rest
      else if targetExists contents (ContentToString record) then remainingRecords contents rest
      else record # remainingRecords contents rest)"

definition DeleteRRSetRecord ::
  "'s transport \<Rightarrow> string \<Rightarrow> string \<Rightarrow> string \<Rightarrow> string list \<Rightarrow> 's \<Rightarrow> error option \<times> 's" where
  "DeleteRRSetRecord c zone name recordType contents s =
     (case getRRSet c zone name recordType s of
        (Inl err, s1) \<Rightarrow>
          if isNotFound err then (None, s1) else (Some (Wrap ''rrset'' err), s1)
      | (Inr rrSet, s1) \<Rightarrow>
          if length (Records rrSet) = 0 then (None, s1)
          else
            let newRecords = remainingRecords contents (Records rrSet) in
            if length newRecords = 0
            then (case DeleteRRSet c zone name recordType s1 of
                    (Some err, s2) \<Rightarrow> (Some (Wrap ''delete rrset'' err), s2)
                  | (None, s2) \<Rightarrow> (None, s2))
            else (case UpdateRRSet c zone name recordType (rrSet\<lparr>Records := newRecords\<rparr>) s1 of
                    (Some err, s2) \<Rightarrow> (Some (Wrap ''update rrset'' err), s2)
                  | (None, s2) \<Rightarrow> (None, s2)))"

definition AddZoneRRSet ::
  "'s transport \<Rightarrow> string \<Rightarrow> string \<Rightarrow> string \<Rightarrow> ResourceRecord list \<Rightarrow> int \<Rightarrow>
     (RRSet \<Rightarrow> RRSet) list \<Rightarrow> 's \<Rightarrow> error option \<times> 's" where
  "AddZoneRRSet c zone recordName recordType values ttl opts s =
     (let record = foldl (\<lambda>r op. op r)
                     \<lparr>RRType = '''', TTL = ttl, Records = values, Filters = [], RRSetMeta = []\<rparr> opts in
      case getRRSet c zone recordName recordType s of
        (Inr records, s1) \<Rightarrow>
          if length (Records records) > 0
          then UpdateRRSet c zone recordName recordType
                 (record\<lparr>Records := Records record @ Records records\<rparr>) s1
          else CreateRRSet c zone recordName recordType record s1
      | (Inl err, s1) \<Rightarrow> CreateRRSet c zone recordName recordType record s1)"

text \<open>
  The zone listing. \<open>doList offset limit names\<close> is the decoded response and the error of
  the GET of one page; \<open>doZone i\<close> answers the GET of the goroutine of the \<open>i\<close>-th zone.
  The goroutines of \<open>AllZonesWithRecords\<close> run in one \<open>errgroup\<close>; \<open>first\<close> selects which
  of the failed ones failed first.
\<close>

definition ZonesWithParam ::
  "(nat \<Rightarrow> nat \<Rightarrow> string list \<Rightarrow> ListZones \<times> error option) \<Rightarrow> nat \<Rightarrow> nat \<Rightarrow> string list \<Rightarrow>
     ListZones \<times> error option" where
  "ZonesWithParam doList offset limit names =
     (case doList offset limit names of
        (res, Some err) \<Rightarrow> (res, Some (Wrap ''request'' err))
      | (res, None) \<Rightarrow> (res, None))"

fun AllZonesFrom ::
  "(nat \<Rightarrow> nat \<Rightarrow> string list \<Rightarrow> ListZones \<times> error option) \<Rightarrow> string list \<Rightarrow> nat \<Rightarrow> nat \<Rightarrow>
     Zone list \<Rightarrow> Zone list \<times> error option" where
  \<comment> \<open>the loop of \<open>AllZones\<close>, with the number of iterations left\<close>
  "AllZonesFrom doList nameFilters 0 offset zones = (zones, None)"
| "AllZonesFrom doList nameFilters (Suc left) offset zones =
     (case ZonesWithParam doList offset 1000 nameFilters of
        (zoneRes, Some err) \<Rightarrow> (zones, Some err)
      | (zoneRes, None) \<Rightarrow>
          let zones' = zones @ Zones zoneRes in
          if Error zoneRes \<noteq> '''' then (zones', Some (Errorf (''request: '' @ Error zoneRes)))
          else if length (Zones zoneRes) = 0 \<or> length (Zones zoneRes) < 1000 then (zones', None)
          else AllZonesFrom doList nameFilters left (offset + 1000) zones')"

definition AllZones ::
  "(nat \<Rightarrow> nat \<Rightarrow> string list \<Rightarrow> ListZones \<times> error option) \<Rightarrow> string list \<Rightarrow> Zone list \<times> error option" where
  "AllZones doList nameFilters = AllZonesFrom doList nameFilters 10 0 []"

definition getZone :: "(uri \<Rightarrow> error + Zone) \<Rightarrow> string \<Rightarrow> error + Zone" where
  "getZone doGetZone name =
     (case doGetZone [''/v2/zones'', Trim name CHR ''.''] of
        Inl err \<Rightarrow> Inl (Wrap (''get zone '' @ Trim name CHR ''.'') err)
      | Inr zone \<Rightarrow> Inr zone)"

definition zoneDetails :: "(nat \<Rightarrow> uri \<Rightarrow> error + Zone) \<Rightarrow> Zone list \<Rightarrow> (Zone \<times> (error + Zone)) list" where
  \<comment> \<open>each listed zone with what \<open>c.Zone(ctx, z.Name)\<close> returned in its goroutine\<close>
  "zoneDetails doZone zones = map (\<lambda>(i, z). (z, getZone (doZone i) (Name z))) (enumerate 0 zones)"

definition detailErrors :: "(Zone \<times> (error + Zone)) list \<Rightarrow> error list" where
  \<comment> \<open>the errors the goroutines return: \<open>fmt.Errorf("%s: %w", z.Name, errGet)\<close>\<close>
  "detailErrors details =
     concat (map (\<lambda>(z, r). case r of Inl errGet \<Rightarrow> [Wrap (Name z) errGet] | Inr zone \<Rightarrow> []) details)"

definition AllZonesWithRecords ::
  "(nat \<Rightarrow> nat \<Rightarrow> string list \<Rightarrow> ListZones \<times> error option) \<Rightarrow> (nat \<Rightarrow> uri \<Rightarrow> error + Zone) \<Rightarrow> nat \<Rightarrow>
     string list \<Rightarrow> Zone list \<times> error option" where
  \<comment> \<open>A nil slice is the empty list.\<close>
  "AllZonesWithRecords doList doZone first nameFilters =
     (case AllZones doList nameFilters of
        (zones, Some err) \<Rightarrow> ([], Some (Wrap ''all zones'' err))
      | (zones, None) \<Rightarrow>
          let details = zoneDetails doZone zones in
          case WaitGroup first (detailErrors details) of
            Some err \<Rightarrow> ([], Some (Wrap ''zone info'' err))
          | None \<Rightarrow> (map (\<lambda>(z, r). case r of Inr zone \<Rightarrow> zone | Inl errGet \<Rightarrow> z) details, None))"

section \<open>A model of the remote service\<close>

text \<open>
  The service behind the transport, taken as a store of RRSets by URI in which every
  request succeeds, except that a GET and a DELETE of an absent RRSet answer 404. It
  also keeps the requests it received. This is an assumption about the service, which
  is not part of the repository; it is used where a claim speaks of the remote state.
\<close>

record remote =
  rrsets :: "uri \<rightharpoonup> RRSet"
  requests :: "(string \<times> uri) list"

definition remoteTransport :: "remote transport" where
  "remoteTransport =
     \<lparr>doGet = (\<lambda>uri s.
        ((case rrsets s uri of None \<Rightarrow> Inl (APIError 404 ''not found'') | Some rr \<Rightarrow> Inr rr),
         s\<lparr>requests := requests s @ [(''GET'', uri)]\<rparr>)),
      doPost = (\<lambda>uri rr s.
        (None, s\<lparr>rrsets := (rrsets s)(uri \<mapsto> rr), requests := requests s @ [(''POST'', uri)]\<rparr>)),
      doPut = (\<lambda>uri rr s.
        (None, s\<lparr>rrsets := (rrsets s)(uri \<mapsto> rr), requests := requests s @ [(''PUT'', uri)]\<rparr>)),
      doDelete = (\<lambda>uri s.
        ((case rrsets s uri of None \<Rightarrow> Some (APIError 404 ''not found'') | Some rr \<Rightarrow> None),
         s\<lparr>rrsets := (rrsets s)(uri := None), requests := requests s @ [(''DELETE'', uri)]\<rparr>))\<rparr>"

definition remoteValues :: "remote \<Rightarrow> uri \<Rightarrow> string list" where
  \<comment> \<open>the resource record values of an RRSet on the remote side, as text\<close>
  "remoteValues s uri = (case rrsets s uri of None \<Rightarrow> [] | Some rr \<Rightarrow> map ContentToString (Records rr))"

section \<open>Running the dispatched tasks against the remote service\<close>

text \<open>
  A task of \<open>ApplyChanges\<close> calls \<open>p.client.DeleteRRSetRecord\<close> or \<open>p.client.AddZoneRRSet\<close>;
  with the SDK client as \<open>dnsManager\<close> these are the functions above (the provider
  passes no \<open>AddZoneOpt\<close>). The tasks of a pass run concurrently. A run is modelled by
  the order in which the tasks take effect, each task as a whole: the tasks that took
  effect before the wait on the teardown group returned (\<open>sched1\<close>) and those after
  (\<open>sched2\<close>). Every teardown task is among the first, every update-add task among the
  second; delete and create tasks may be in either.
\<close>

fun callURI :: "call \<Rightarrow> uri" where
  "callURI (DeleteRRSetRecordCall zone name recordType contents) = rrsetURI zone name recordType"
| "callURI (AddZoneRRSetCall zone name recordType values ttl) = rrsetURI zone name recordType"

fun execCall :: "'s transport \<Rightarrow> call \<Rightarrow> 's \<Rightarrow> error option \<times> 's" where
  "execCall c (DeleteRRSetRecordCall zone name recordType contents) s =
     DeleteRRSetRecord c zone name recordType contents s"
| "execCall c (AddZoneRRSetCall zone name recordType values ttl) s =
     AddZoneRRSet c zone name recordType values ttl [] s"

definition runTasks :: "'s transport \<Rightarrow> task list \<Rightarrow> 's \<Rightarrow> 's" where
  "runTasks c ts s = foldl (\<lambda>s' t. snd (execCall c (remoteCall t) s')) s ts"

definition validSchedule :: "env \<Rightarrow> changes \<Rightarrow> task list \<Rightarrow> task list \<Rightarrow> bool" where
  "validSchedule env chs sched1 sched2 \<longleftrightarrow>
     mset sched1 + mset sched2 = mset (dispatched (events (ApplyChanges env False chs)))
     \<and> mset (teardownTasks env False chs) \<subseteq># mset sched1
     \<and> mset (updateAddTasks env False chs) \<subseteq># mset sched2"

definition entryURI :: "env \<Rightarrow> endpoint \<Rightarrow> uri" where
  \<comment> \<open>the RRSet an endpoint is sent to\<close>
  "entryURI env e =
     rrsetURI (zoneFromDNSNameGetter (GetDomainFilter env) (DNSName e)) (DNSName e) (RecordType e)"

definition plainType :: "string \<Rightarrow> bool" where
  \<comment> \<open>a record type whose content is the value itself (\<open>RecordTypeAny\<close>)\<close>
  "plainType recordType \<longleftrightarrow>
     (let rType = ToLower recordType in
      rType \<noteq> ''mx'' \<and> rType \<noteq> ''caa'' \<and> rType \<noteq> ''srv'' \<and> rType \<noteq> ''https'' \<and> rType \<noteq> ''scvb'')"

definition recordsHaveContent :: "remote \<Rightarrow> uri \<Rightarrow> bool" where
  "recordsHaveContent s uri \<longleftrightarrow>
     (case rrsets s uri of None \<Rightarrow> True | Some rr \<Rightarrow> list_all (\<lambda>r. Content r \<noteq> []) (Records rr))"

text \<open>The effect of one call on the RRSet it addresses, as a function of that RRSet.\<close>

fun callEffect :: "call \<Rightarrow> RRSet option \<Rightarrow> RRSet option" where
  "callEffect (DeleteRRSetRecordCall zone name recordType contents) None = None"
| "callEffect (DeleteRRSetRecordCall zone name recordType contents) (Some rr) =
     (if Records rr = [] then Some rr
      else if remainingRecords contents (Records rr) = [] then None
      else Some (rr\<lparr>Records := remainingRecords contents (Records rr)\<rparr>))"
| "callEffect (AddZoneRRSetCall zone name recordType values ttl) None =
     Some \<lparr>RRType = '''', TTL = ttl, Records = values, Filters = [], RRSetMeta = []\<rparr>"
| "callEffect (AddZoneRRSetCall zone name recordType values ttl) (Some rr) =
     Some \<lparr>RRType = '''', TTL = ttl, Records = values @ Records rr, Filters = [], RRSetMeta = []\<rparr>"

definition slotValues :: "RRSet option \<Rightarrow> string list" where
  "slotValues v = (case v of None \<Rightarrow> [] | Some rr \<Rightarrow> map ContentToString (Records rr))"

definition valuesRoundTrip :: "(string \<Rightarrow> string \<Rightarrow> any list) \<Rightarrow> endpoint \<Rightarrow> bool" where
  \<comment> \<open>the text of the record built from each target is the target\<close>
  "valuesRoundTrip structured c \<longleftrightarrow>
     list_all (\<lambda>v. ContentToString (newRecord structured c v) = v) (Targets c)"

section \<open>Example inputs\<close>

text \<open>
  One zone \<open>ex.com\<close> is listed; \<open>HasChanges\<close> holds; the domain filter keeps the names
  it is given (as \<open>endpoint.NewDomainFilter\<close> does for lower-case names without a
  trailing dot); every remote call succeeds.
\<close>

definition exampleEnv :: env where
  "exampleEnv =
     \<lparr>hasChanges = (\<lambda>chs. True),
      newDomainFilter = (\<lambda>domains. domains),
      structuredContent = (\<lambda>rType content. []),
      zoneListing = ([\<lparr>Name = ''ex.com'', ZoneRecords = []\<rparr>], None),
      outcome = (\<lambda>g i. None),
      firstError = (\<lambda>g. 0)\<rparr>"

definition exampleUpdate :: changes where
  "exampleUpdate =
     \<lparr>Create = [\<lparr>DNSName = ''b.ex.com'', RecordType = ''A'', Targets = [''3.3.3.3''], RecordTTL = 300\<rparr>],
      UpdateOld = [\<lparr>DNSName = ''a.ex.com'', RecordType = ''A'', Targets = [''1.1.1.1''], RecordTTL = 300\<rparr>],
      UpdateNew = [\<lparr>DNSName = ''a.ex.com'', RecordType = ''A'', Targets = [''2.2.2.2''], RecordTTL = 300\<rparr>],
      Delete = []\<rparr>"

definition exampleNoDiff :: changes where
  "exampleNoDiff =
     \<lparr>Create = [],
      UpdateOld = [\<lparr>DNSName = ''a.ex.com'', RecordType = ''A'', Targets = [''1.1.1.1'', ''2.2.2.2''], RecordTTL = 300\<rparr>],
      UpdateNew = [\<lparr>DNSName = ''a.ex.com'', RecordType = ''A'', Targets = [''2.2.2.2'', ''1.1.1.1''], RecordTTL = 300\<rparr>],
      Delete = []\<rparr>"

definition exampleCreateDelete :: changes where
  "exampleCreateDelete =
     \<lparr>Create = [\<lparr>DNSName = ''b.ex.com'', RecordType = ''A'', Targets = [''3.3.3.3''], RecordTTL = 300\<rparr>],
      UpdateOld = [],
      UpdateNew = [],
      Delete = [\<lparr>DNSName = ''c.ex.com'', RecordType = ''A'', Targets = [''4.4.4.4''], RecordTTL = 300\<rparr>]\<rparr>"

definition exampleZones :: "Zone list" where
  "exampleZones = [\<lparr>Name = ''a.com'', ZoneRecords = []\<rparr>, \<lparr>Name = ''b.com'', ZoneRecords = []\<rparr>]"

definition exampleList :: "nat \<Rightarrow> nat \<Rightarrow> string list \<Rightarrow> ListZones \<times> error option" where
  "exampleList offset limit names =
     (\<lparr>Zones = (if offset = 0 then exampleZones else []), TotalAmount = 2, Error = ''''\<rparr>, None)"

definition exampleDetail :: "nat \<Rightarrow> uri \<Rightarrow> error + Zone" where
  "exampleDetail i u =
     (if u = [''/v2/zones'', ''a.com''] then Inr \<lparr>Name = ''a.com'', ZoneRecords = []\<rparr>
      else Inl (APIError 500 ''boom''))"

definition emptyRRSetRemote :: remote where
  "emptyRRSetRemote =
     \<lparr>rrsets = [rrsetURI ''ex.com'' ''a.ex.com'' ''A'' \<mapsto>
                  \<lparr>RRType = ''A'', TTL = 300, Records = [], Filters = [], RRSetMeta = []\<rparr>],
      requests = []\<rparr>"

definition oneValueRemote :: remote where
  "oneValueRemote =
     \<lparr>rrsets = [rrsetURI ''ex.com'' ''a.ex.com'' ''A'' \<mapsto>
                  \<lparr>RRType = ''A'', TTL = 300,
                   Records = [\<lparr>Content = [AString ''1.1.1.1''], Meta = [], Enabled = True\<rparr>],
                   Filters = [], RRSetMeta = []\<rparr>],
      requests = []\<rparr>"

definition exampleTXT :: changes where
  "exampleTXT =
     \<lparr>Create = [\<lparr>DNSName = ''t.ex.com'', RecordType = ''TXT'', Targets = [''hello''], RecordTTL = 300\<rparr>],
      UpdateOld = [], UpdateNew = [], Delete = []\<rparr>"

definition exampleCreate :: changes where
  "exampleCreate =
     \<lparr>Create = [\<lparr>DNSName = ''a.ex.com'', RecordType = ''A'', Targets = [''2.2.2.2''], RecordTTL = 300\<rparr>],
      UpdateOld = [], UpdateNew = [], Delete = []\<rparr>"

definition dryRunRemote :: remote where
  "dryRunRemote =
     \<lparr>rrsets = [rrsetURI ''ex.com'' ''b.ex.com'' ''A'' \<mapsto>
                  \<lparr>RRType = ''A'', TTL = 60,
                   Records = [\<lparr>Content = [AString ''9.9.9.9''], Meta = [], Enabled = True\<rparr>],
                   Filters = [], RRSetMeta = []\<rparr>,
                rrsetURI ''ex.com'' ''c.ex.com'' ''A'' \<mapsto>
                  \<lparr>RRType = ''A'', TTL = 60,
                   Records = [\<lparr>Content = [AString ''4.4.4.4''], Meta = [], Enabled = True\<rparr>],
                   Filters = [], RRSetMeta = []\<rparr>],
      requests = []\<rparr>"

section \<open>Properties of the zone resolver\<close>

lemma Split_nonempty: "Split s sep \<noteq> []"
  unfolding Split_def
proof -
  have "splitFrom sep cur s \<noteq> []" for cur
    by (induction s arbitrary: cur) auto
  then show "splitFrom sep [] s \<noteq> []" .
qed

lemma rev_suffixes: "rev (suffixes xs) = map (\<lambda>i. drop i xs) [0 ..< Suc (length xs)]"
proof (induction xs)
  case Nil then show ?case by simp
next
  case (Cons x xs)
  have "map (\<lambda>i. drop i (x # xs)) [0 ..< Suc (length (x # xs))]
      = (x # xs) # map (\<lambda>i. drop (Suc i) (x # xs)) [0 ..< Suc (length xs)]"
    by (simp only: upt_conv_Cons[of 0] map_Suc_upt[symmetric] list.map length_Cons) (simp add: comp_def del: upt_Suc)
  with Cons show ?case by (simp del: upt_Suc)
qed

lemma filter_less_upt: "filter (\<lambda>i. i < k) [0 ..< m] = [0 ..< min k m]"
proof (induction m)
  case 0 then show ?case by simp
next
  case (Suc m)
  consider "k \<le> m" | "k = Suc m" | "Suc m < k" by linarith
  then show ?case using Suc by cases (simp_all add: min_def)
qed

lemma concat_map_if: "concat (map (\<lambda>x. if P x then [f x] else []) xs) = map f (filter P xs)"
  by (induction xs) auto

lemma suffix_names:
  "[Join ls sep. ls \<leftarrow> rev (suffixes parts), 2 \<le> length ls] = map (\<lambda>i. Join (drop i parts) sep) [0 ..< length parts - 1]"
proof -
  have "[Join ls sep. ls \<leftarrow> rev (suffixes parts), 2 \<le> length ls]
      = map (\<lambda>ls. Join ls sep) (filter (\<lambda>ls. 2 \<le> length ls) (rev (suffixes parts)))"
    by (rule concat_map_if)
  also have "\<dots> = map (\<lambda>i. Join (drop i parts) sep) (filter (\<lambda>i. i < length parts - 1) [0 ..< Suc (length parts)])"
    unfolding rev_suffixes filter_map map_map
    by (rule arg_cong2[where f = map]) (auto simp: comp_def intro!: filter_cong)
  also have "\<dots> = map (\<lambda>i. Join (drop i parts) sep) [0 ..< length parts - 1]"
    unfolding filter_less_upt by (simp add: min_def)
  finally show ?thesis .
qed

lemma extractAllZones_labelSuffixes: "extractAllZones name = labelSuffixes name"
  unfolding extractAllZones_def labelSuffixes_def suffix_names Let_def
  by auto

lemma searchMap_foldl:
  "foldl (\<lambda>search zone. search(zone \<mapsto> Trim zone CHR ''.'')) m zs s =
     (if s \<in> set zs then Some (Trim s CHR ''.'') else m s)"
  by (induction zs arbitrary: m) auto

lemma searchMap_apply: "searchMap zs s = (if s \<in> set zs then Some (Trim s CHR ''.'') else None)"
  by (simp add: searchMap_def searchMap_foldl)

lemma lookupZones_find:
  "lookupZones (searchMap zs) cands =
     (case find (\<lambda>s. s \<in> set zs) cands of None \<Rightarrow> [] | Some s \<Rightarrow> Trim s CHR ''.'')"
  by (induction cands) (auto simp: searchMap_apply)

lemma Join_tail_le: "length (Join ps sep) \<le> length (Join (p # ps) sep)"
  by (cases ps) simp_all

lemma Join_tail_less: "ps \<noteq> [] \<Longrightarrow> length (Join ps ''.'') < length (Join (p # ps) ''.'')"
  by (cases ps) simp_all

lemma Join_suffix_le: "suffix ls ps \<Longrightarrow> length (Join ls sep) \<le> length (Join ps sep)"
proof (induction ps)
  case Nil then show ?case by simp
next
  case (Cons q qs)
  then show ?case
    using Join_tail_le[of qs sep q] by (auto simp: suffix_Cons)
qed

lemma suffix_names_decreasing:
  "sorted_wrt (\<lambda>a b. length b < length a)
     (map (\<lambda>ls. Join ls ''.'') (filter (\<lambda>ls. 2 \<le> length ls) (rev (suffixes parts))))"
proof (induction parts)
  case Nil then show ?case by simp
next
  case (Cons p ps)
  have "length (Join ls ''.'') < length (Join (p # ps) ''.'')"
    if "suffix ls ps" "2 \<le> length ls" for ls
  proof -
    from that have "ps \<noteq> []" by auto
    then show ?thesis
      using Join_suffix_le[OF that(1), of "''.''"] Join_tail_less[of ps p] by linarith
  qed
  with Cons show ?case by (auto simp: suffixes.simps)
qed

lemma labelSuffixes_decreasing: "sorted_wrt (\<lambda>a b. length b < length a) (labelSuffixes name)"
  unfolding labelSuffixes_def concat_map_if by (rule suffix_names_decreasing)

lemma find_first_longest:
  "sorted_wrt (\<lambda>a b. length b < length a) xs \<Longrightarrow> find P xs = Some x \<Longrightarrow>
     x \<in> set xs \<and> P x \<and> (\<forall>y \<in> set xs. P y \<longrightarrow> length y \<le> length x)"
proof (induction xs)
  case Nil then show ?case by simp
next
  case (Cons a xs)
  then show ?case by (auto split: if_splits simp: less_imp_le)
qed

lemma find_None_iff_disjoint: "find (\<lambda>s. s \<in> A) xs = None \<longleftrightarrow> set xs \<inter> A = {}"
  by (auto simp: find_None_iff)

text \<open>
  C4. The resolver applied to a name \<open>N\<close> over the zone set \<open>Z\<close> returns the first, and
  so the longest, of the suffix names of \<open>N\<close> with at least two labels (the dot-split
  suffixes of the dot-trimmed name) that is in \<open>Z\<close>, dot-trimmed; the empty string when
  none is in \<open>Z\<close>; and the empty string for every name with fewer than two labels.
\<close>

theorem zone_resolver_longest_suffix:
  "zoneFromDNSNameGetter Z N =
     (case find (\<lambda>s. s \<in> set Z) (labelSuffixes N) of
        None \<Rightarrow> []
      | Some s \<Rightarrow> Trim s CHR ''.'')
   \<and> (set (labelSuffixes N) \<inter> set Z = {} \<longrightarrow> zoneFromDNSNameGetter Z N = [])
   \<and> (set (labelSuffixes N) \<inter> set Z \<noteq> {} \<longrightarrow>
        (\<exists>s \<in> set (labelSuffixes N) \<inter> set Z.
           zoneFromDNSNameGetter Z N = Trim s CHR ''.'' \<and>
           (\<forall>s' \<in> set (labelSuffixes N) \<inter> set Z. length s' \<le> length s)))
   \<and> (length (Split (Trim N CHR ''.'') CHR ''.'') < 2 \<longrightarrow> zoneFromDNSNameGetter Z N = [])"
proof -
  let ?f = "find (\<lambda>s. s \<in> set Z) (labelSuffixes N)"
  have eq: "zoneFromDNSNameGetter Z N = (case ?f of None \<Rightarrow> [] | Some s \<Rightarrow> Trim s CHR ''.'')"
    by (simp add: zoneFromDNSNameGetter_def lookupZones_find extractAllZones_labelSuffixes)
  have none: "zoneFromDNSNameGetter Z N = []" if "set (labelSuffixes N) \<inter> set Z = {}"
    using that eq by (simp add: find_None_iff_disjoint[THEN iffD2])
  have some: "\<exists>s \<in> set (labelSuffixes N) \<inter> set Z.
           zoneFromDNSNameGetter Z N = Trim s CHR ''.'' \<and>
           (\<forall>s' \<in> set (labelSuffixes N) \<inter> set Z. length s' \<le> length s)"
    if "set (labelSuffixes N) \<inter> set Z \<noteq> {}"
  proof -
    from that obtain s where s: "?f = Some s"
      using find_None_iff_disjoint[of "set Z" "labelSuffixes N"] by (cases ?f) auto
    from find_first_longest[OF labelSuffixes_decreasing s] eq s show ?thesis by auto
  qed
  have few: "zoneFromDNSNameGetter Z N = []" if "length (Split (Trim N CHR ''.'') CHR ''.'') < 2"
    using that by (simp add: zoneFromDNSNameGetter_def extractAllZones_def)
  from eq none some few show ?thesis by blast
qed

theorem zone_resolver_longest_suffix_witness:
  "set (labelSuffixes ''a.b.ex.com'') \<inter> set [''ex.com'', ''.ex.com'', ''b.ex.com'', ''.b.ex.com''] \<noteq> {}
   \<and> zoneFromDNSNameGetter [''ex.com'', ''.ex.com'', ''b.ex.com'', ''.b.ex.com''] ''a.b.ex.com'' = ''b.ex.com''
   \<and> set (labelSuffixes ''x.ex.org'') \<inter> set [''ex.com'', ''b.ex.com''] = {}
   \<and> zoneFromDNSNameGetter [''ex.com'', ''b.ex.com''] ''x.ex.org'' = ''''
   \<and> length (Split (Trim ''com'' CHR ''.'') CHR ''.'') < 2
   \<and> zoneFromDNSNameGetter [''com''] ''com'' = ''''"
proof -
  let ?Z = "[''ex.com'', ''.ex.com'', ''b.ex.com'', ''.b.ex.com'']"
  have s1: "labelSuffixes ''a.b.ex.com'' = [''a.b.ex.com'', ''b.ex.com'', ''ex.com'']"
    by code_simp
  have t1: "Trim ''b.ex.com'' CHR ''.'' = ''b.ex.com''"
    by code_simp
  have h1: "set (labelSuffixes ''a.b.ex.com'') \<inter> set ?Z \<noteq> {}"
    unfolding s1 by simp
  have r1: "zoneFromDNSNameGetter ?Z ''a.b.ex.com'' = ''b.ex.com''"
    using zone_resolver_longest_suffix [of ?Z "''a.b.ex.com''", THEN conjunct1]
    by (simp add: s1 t1)
  have s2: "labelSuffixes ''x.ex.org'' = [''x.ex.org'', ''ex.org'']"
    by code_simp
  have h2: "set (labelSuffixes ''x.ex.org'') \<inter> set [''ex.com'', ''b.ex.com''] = {}"
    unfolding s2 by simp
  have r2: "zoneFromDNSNameGetter [''ex.com'', ''b.ex.com''] ''x.ex.org'' = ''''"
    using zone_resolver_longest_suffix [of "[''ex.com'', ''b.ex.com'']" "''x.ex.org''"] h2
    by blast
  have h3: "length (Split (Trim ''com'' CHR ''.'') CHR ''.'') < 2"
    by code_simp
  have r3: "zoneFromDNSNameGetter [''com''] ''com'' = ''''"
    using zone_resolver_longest_suffix [of "[''com'']" "''com''"] h3
    by blast
  from h1 r1 h2 r2 h3 r3 show ?thesis by blast
qed

section \<open>Properties of the content differ\<close>

lemma targetExists_iff: "targetExists xs t \<longleftrightarrow> t \<in> set xs"
  by (induction xs) auto

lemma appendMissing_filter: "appendMissing xs ys = filter (\<lambda>t. t \<notin> set ys) xs"
  by (induction xs) (simp_all add: targetExists_iff)

lemma unexistingTargets_no_match:
  "find (\<lambda>c. RecordType c = RecordType existing \<and> DNSName c = DNSName existing) candidates = None
   \<Longrightarrow> unexistingTargets existing candidates diffFromExisting = []"
  by (induction candidates) (auto split: if_splits)

lemma unexistingTargets_match:
  "find (\<lambda>c. RecordType c = RecordType existing \<and> DNSName c = DNSName existing) candidates = Some m
   \<Longrightarrow> unexistingTargets existing candidates diffFromExisting =
       (if diffFromExisting then filter (\<lambda>t. t \<notin> set (Targets m)) (Targets existing)
        else filter (\<lambda>t. t \<notin> set (Targets existing)) (Targets m))"
  by (induction candidates) (auto simp: appendMissing_filter split: if_splits)

text \<open>
  C5. \<open>unexistingTargets\<close> takes the first candidate with the record type and DNS name
  of \<open>existing\<close>; with no such candidate the result is empty; otherwise it is the targets
  of \<open>existing\<close> absent from the candidate (\<open>diffFromExisting\<close> true), or the targets of
  the candidate absent from \<open>existing\<close> (\<open>diffFromExisting\<close> false), in their order.
\<close>

theorem unexistingTargets_first_match:
  "unexistingTargets existing candidates diffFromExisting =
     (case find (\<lambda>c. RecordType c = RecordType existing \<and> DNSName c = DNSName existing) candidates of
        None \<Rightarrow> []
      | Some m \<Rightarrow>
          if diffFromExisting then filter (\<lambda>t. t \<notin> set (Targets m)) (Targets existing)
          else filter (\<lambda>t. t \<notin> set (Targets existing)) (Targets m))"
proof (cases "find (\<lambda>c. RecordType c = RecordType existing \<and> DNSName c = DNSName existing) candidates")
  case None
  then show ?thesis by (simp add: unexistingTargets_no_match)
next
  case (Some m)
  then show ?thesis by (simp add: unexistingTargets_match)
qed

theorem unexistingTargets_first_match_witness:
  "unexistingTargets
      \<lparr>DNSName = ''a.ex.com'', RecordType = ''A'', Targets = [''1.1.1.1'', ''2.2.2.2''], RecordTTL = 300\<rparr>
      [\<lparr>DNSName = ''b.ex.com'', RecordType = ''A'', Targets = [''9.9.9.9''], RecordTTL = 300\<rparr>,
       \<lparr>DNSName = ''a.ex.com'', RecordType = ''A'', Targets = [''2.2.2.2''], RecordTTL = 300\<rparr>] True
     = [''1.1.1.1'']
   \<and> unexistingTargets
      \<lparr>DNSName = ''a.ex.com'', RecordType = ''A'', Targets = [''2.2.2.2''], RecordTTL = 300\<rparr>
      [\<lparr>DNSName = ''a.ex.com'', RecordType = ''A'', Targets = [''1.1.1.1'', ''2.2.2.2''], RecordTTL = 300\<rparr>] False
     = [''1.1.1.1'']
   \<and> unexistingTargets
      \<lparr>DNSName = ''a.ex.com'', RecordType = ''A'', Targets = [''2.2.2.2''], RecordTTL = 300\<rparr>
      [\<lparr>DNSName = ''a.ex.com'', RecordType = ''AAAA'', Targets = [''::1''], RecordTTL = 300\<rparr>] False
     = []"
  using
    unexistingTargets_first_match [of
      "\<lparr>DNSName = ''a.ex.com'', RecordType = ''A'', Targets = [''1.1.1.1'', ''2.2.2.2''], RecordTTL = 300\<rparr>"
      "[\<lparr>DNSName = ''b.ex.com'', RecordType = ''A'', Targets = [''9.9.9.9''], RecordTTL = 300\<rparr>,
        \<lparr>DNSName = ''a.ex.com'', RecordType = ''A'', Targets = [''2.2.2.2''], RecordTTL = 300\<rparr>]" True]
    unexistingTargets_first_match [of
      "\<lparr>DNSName = ''a.ex.com'', RecordType = ''A'', Targets = [''2.2.2.2''], RecordTTL = 300\<rparr>"
      "[\<lparr>DNSName = ''a.ex.com'', RecordType = ''A'', Targets = [''1.1.1.1'', ''2.2.2.2''], RecordTTL = 300\<rparr>]" False]
    unexistingTargets_first_match [of
      "\<lparr>DNSName = ''a.ex.com'', RecordType = ''A'', Targets = [''2.2.2.2''], RecordTTL = 300\<rparr>"
      "[\<lparr>DNSName = ''a.ex.com'', RecordType = ''AAAA'', Targets = [''::1''], RecordTTL = 300\<rparr>]" False]
  by simp

section \<open>Properties of \<open>ApplyChanges\<close>\<close>

lemma collectValues_eq:
  "collectValues dryRun msgOf valueOf cs (n, vs, ms) =
     (n + length cs,
      vs @ (if dryRun then [] else map valueOf cs),
      ms @ (if dryRun then [] else map msgOf cs))"
  by (induction cs arbitrary: n vs ms) auto

lemma teardownLoop_eq:
  "teardownLoop dryRun ez old ds (n, evs) =
     (n + sum_list (map (\<lambda>d. if ez (DNSName d) = '''' then 0 else length (unexistingTargets d old False)) ds),
      evs @ map (Go gr2) (concat (map (teardownTasksOf dryRun ez old) ds)))"
  by (induction ds arbitrary: n evs) (auto simp: collectValues_eq teardownTasksOf_def Let_def)

lemma deleteLoop_eq:
  "deleteLoop dryRun ez ds (n, evs) =
     (n + sum_list (map (\<lambda>d. if ez (DNSName d) = '''' then 0 else length (Targets d)) ds),
      evs @ map (Go gr1) (concat (map (deleteTasksOf dryRun ez) ds)))"
  by (induction ds arbitrary: n evs) (auto simp: collectValues_eq deleteTasksOf_def Let_def)

lemma createLoop_eq:
  "createLoop dryRun st ez cs (n, evs) =
     (n + sum_list (map (\<lambda>c. if ez (DNSName c) = '''' \<or> RecordType c = ''TXT'' then 0 else length (Targets c)) cs),
      evs @ map (Go gr1) (concat (map (createTasksOf dryRun st ez) cs)))"
  by (induction cs arbitrary: n evs) (auto simp: collectValues_eq createTasksOf_def Let_def)

lemma updateAddLoop_eq:
  "updateAddLoop dryRun st ez old cs (n, evs) =
     (n + sum_list (map (\<lambda>c. if ez (DNSName c) = '''' then 0 else length (unexistingTargets c old True)) cs),
      evs @ map (Go gr1) (concat (map (updateAddTasksOf dryRun st ez old) cs)))"
  by (induction cs arbitrary: n evs) (auto simp: collectValues_eq updateAddTasksOf_def Let_def)

lemma groupTasks_Nil: "groupTasks g [] = []"
  by (simp add: groupTasks_def)

lemma groupTasks_append: "groupTasks g (xs @ ys) = groupTasks g xs @ groupTasks g ys"
  by (simp add: groupTasks_def)

lemma groupTasks_map_Go: "groupTasks g (map (Go g') ts) = (if g' = g then ts else [])"
  by (induction ts) (auto simp: groupTasks_def)

lemma groupTasks_Wait: "groupTasks g [Wait g'] = []"
  by (simp add: groupTasks_def)

lemma groupTasks_Cons_Wait: "groupTasks g (Wait g' # evs) = groupTasks g evs"
  by (simp add: groupTasks_def)

lemma dispatched_append: "dispatched (xs @ ys) = dispatched xs @ dispatched ys"
  by (simp add: dispatched_def)

lemma dispatched_map_Go: "dispatched (map (Go g) ts) = ts"
  by (induction ts) (auto simp: dispatched_def)

lemma dispatched_Wait: "dispatched [Wait g] = []"
  by (simp add: dispatched_def)

lemma WaitGroup_None_iff: "WaitGroup pick errs = None \<longleftrightarrow> errs = []"
  by (simp add: WaitGroup_def)

lemma WaitGroup_Some_mem: "WaitGroup pick errs = Some e \<Longrightarrow> e \<in> set errs"
  by (auto simp: WaitGroup_def split: if_splits)

lemma taskErrors_Nil: "taskErrors out [] = []"
  by (simp add: taskErrors_def)

lemma set_taskErrors:
  "set (taskErrors out ts) = {Wrap (errMsg (ts ! i)) e | i e. i < length ts \<and> out i = Some e}"
  by (force simp: taskErrors_def errSafeWrap_def in_set_enumerate_eq split: option.splits)

lemma taskErrors_nonempty_iff: "taskErrors out ts \<noteq> [] \<longleftrightarrow> (\<exists>i < length ts. out i \<noteq> None)"
proof -
  have "taskErrors out ts \<noteq> [] \<longleftrightarrow> set (taskErrors out ts) \<noteq> {}" by simp
  also have "\<dots> \<longleftrightarrow> (\<exists>i < length ts. out i \<noteq> None)"
    unfolding set_taskErrors by auto
  finally show ?thesis .
qed

lemma ApplyChanges_events:
  "hasChanges env chs \<Longrightarrow>
   events (ApplyChanges env dryRun chs) =
     map (Go gr2) (teardownTasks env dryRun chs) @ map (Go gr1) (deleteTasks env dryRun chs)
     @ map (Go gr1) (createTasks env dryRun chs) @ [Wait gr2]
     @ (if teardownFailed env dryRun chs then []
        else map (Go gr1) (updateAddTasks env dryRun chs) @ [Wait gr1])"
  by (auto simp: ApplyChanges_def Let_def teardownLoop_eq deleteLoop_eq createLoop_eq updateAddLoop_eq
      teardownTasks_def deleteTasks_def createTasks_def updateAddTasks_def teardownFailed_def
      groupTasks_append groupTasks_map_Go groupTasks_Wait WaitGroup_def
      split: option.splits)

lemma ApplyChanges_returned:
  "hasChanges env chs \<Longrightarrow>
   returned (ApplyChanges env dryRun chs) =
     (case WaitGroup (firstError env gr2) (taskErrors (outcome env gr2) (teardownTasks env dryRun chs)) of
        Some err \<Rightarrow> Some (Wrap ''gcore: apply changes'' err)
      | None \<Rightarrow>
          (case WaitGroup (firstError env gr1)
                  (taskErrors (outcome env gr1)
                     (deleteTasks env dryRun chs @ createTasks env dryRun chs @ updateAddTasks env dryRun chs)) of
             Some err \<Rightarrow> Some (Wrap ''gcore: apply changes'' err)
           | None \<Rightarrow> None))"
  by (auto simp: ApplyChanges_def Let_def teardownLoop_eq deleteLoop_eq createLoop_eq updateAddLoop_eq
      teardownTasks_def deleteTasks_def createTasks_def updateAddTasks_def
      groupTasks_append groupTasks_map_Go groupTasks_Wait groupTasks_Cons_Wait groupTasks_Nil
      split: option.splits)

lemma ApplyChanges_no_changes:
  "\<not> hasChanges env chs \<Longrightarrow> events (ApplyChanges env dryRun chs) = [] \<and> returned (ApplyChanges env dryRun chs) = None"
  by (simp add: ApplyChanges_def)

lemma unexistingTargets_same_sets:
  assumes "\<forall>prev \<in> set old. RecordType prev = RecordType n \<and> DNSName prev = DNSName n \<longrightarrow> set (Targets prev) = set (Targets n)"
  shows "unexistingTargets n old b = []"
  using assms by (induction old) (auto simp: appendMissing_filter)

lemma lookupZones_empty: "lookupZones Map.empty cands = []"
  by (induction cands) auto

lemma resolver_no_zones: "zoneFromDNSNameGetter [] name = []"
  by (simp add: zoneFromDNSNameGetter_def searchMap_def lookupZones_empty)

text \<open>
  C7. When the create and delete groups are empty and every \<open>updateOld\<close> entry has the
  same target set as the \<open>updateNew\<close> entry with its name and type, \<open>ApplyChanges\<close>
  hands no remote call to any group, in a dry run or not, and returns nil.
\<close>

theorem no_diff_no_calls:
  assumes "Create chs = []" and "Delete chs = []"
    and "\<forall>n \<in> set (UpdateNew chs). \<forall>prev \<in> set (UpdateOld chs).
           RecordType prev = RecordType n \<and> DNSName prev = DNSName n \<longrightarrow> set (Targets prev) = set (Targets n)"
  shows "dispatched (events (ApplyChanges env dryRun chs)) = []
         \<and> returned (ApplyChanges env dryRun chs) = None"
proof (cases "hasChanges env chs")
  case False
  then show ?thesis by (simp add: ApplyChanges_no_changes dispatched_def)
next
  case True
  have T: "teardownTasks env dryRun chs = []"
    using assms(3) by (auto simp: teardownTasks_def teardownTasksOf_def unexistingTargets_same_sets)
  have A: "updateAddTasks env dryRun chs = []"
    using assms(3) by (auto simp: updateAddTasks_def updateAddTasksOf_def unexistingTargets_same_sets)
  have D: "deleteTasks env dryRun chs = []" using assms(2) by (simp add: deleteTasks_def)
  have C: "createTasks env dryRun chs = []" using assms(1) by (simp add: createTasks_def)
  show ?thesis
    using True by (simp add: ApplyChanges_events ApplyChanges_returned T A D C teardownFailed_def
        taskErrors_Nil WaitGroup_def dispatched_def)
qed

theorem no_diff_no_calls_witness:
  "dispatched (events (ApplyChanges exampleEnv False exampleNoDiff)) = []
   \<and> returned (ApplyChanges exampleEnv False exampleNoDiff) = None"
proof -
  have h1: "Create exampleNoDiff = []" and h2: "Delete exampleNoDiff = []"
    by (simp_all add: exampleNoDiff_def)
  have h3: "\<forall>n \<in> set (UpdateNew exampleNoDiff). \<forall>prev \<in> set (UpdateOld exampleNoDiff).
           RecordType prev = RecordType n \<and> DNSName prev = DNSName n \<longrightarrow> set (Targets prev) = set (Targets n)"
    by (auto simp: exampleNoDiff_def)
  from no_diff_no_calls[OF h1 h2 h3] show ?thesis .
qed

text \<open>
  C10. When the zone listing fails, \<open>GetDomainFilter\<close> returns the empty filter, the
  resolver maps every name to no zone, and \<open>ApplyChanges\<close> returns nil with no remote
  call handed to any group.
\<close>

theorem listing_failure_skips_everything:
  assumes "zoneListing env = (zs, Some err)"
  shows "GetDomainFilter env = []
         \<and> (\<forall>name. zoneFromDNSNameGetter (GetDomainFilter env) name = [])
         \<and> returned (ApplyChanges env dryRun chs) = None
         \<and> dispatched (events (ApplyChanges env dryRun chs)) = []"
proof -
  have F: "GetDomainFilter env = []" using assms by (simp add: GetDomainFilter_def)
  have T: "teardownTasks env dryRun chs = []"
    by (simp add: teardownTasks_def teardownTasksOf_def F resolver_no_zones)
  have A: "updateAddTasks env dryRun chs = []"
    by (simp add: updateAddTasks_def updateAddTasksOf_def F resolver_no_zones)
  have D: "deleteTasks env dryRun chs = []"
    by (simp add: deleteTasks_def deleteTasksOf_def F resolver_no_zones)
  have C: "createTasks env dryRun chs = []"
    by (simp add: createTasks_def createTasksOf_def F resolver_no_zones)
  have R: "returned (ApplyChanges env dryRun chs) = None \<and> dispatched (events (ApplyChanges env dryRun chs)) = []"
  proof (cases "hasChanges env chs")
    case False
    then show ?thesis by (simp add: ApplyChanges_no_changes dispatched_def)
  next
    case True
    then show ?thesis
      by (simp add: ApplyChanges_events ApplyChanges_returned T A D C teardownFailed_def
        taskErrors_Nil WaitGroup_def dispatched_def)
  qed
  from F R show ?thesis by (simp add: resolver_no_zones)
qed

theorem listing_failure_skips_everything_witness:
  "GetDomainFilter (exampleEnv\<lparr>zoneListing := ([], Some (Errorf ''timeout''))\<rparr>) = []
   \<and> zoneFromDNSNameGetter (GetDomainFilter (exampleEnv\<lparr>zoneListing := ([], Some (Errorf ''timeout''))\<rparr>)) ''a.ex.com'' = []
   \<and> returned (ApplyChanges (exampleEnv\<lparr>zoneListing := ([], Some (Errorf ''timeout''))\<rparr>) False exampleUpdate) = None
   \<and> dispatched (events (ApplyChanges (exampleEnv\<lparr>zoneListing := ([], Some (Errorf ''timeout''))\<rparr>) False exampleUpdate)) = []"
proof -
  have h: "zoneListing (exampleEnv\<lparr>zoneListing := ([], Some (Errorf ''timeout''))\<rparr>) = ([], Some (Errorf ''timeout''))"
    by simp
  from listing_failure_skips_everything[OF h, of False exampleUpdate] show ?thesis by blast
qed

text \<open>
  C3. A dry run is to make no remote call. The delete and create loops lack the check
  \<open>len(recordValues) == 0\<close> that the two update loops have: in a dry run they still
  hand \<open>DeleteRRSetRecord\<close> and \<open>AddZoneRRSet\<close> to the group, with no values. The
  counters are those of a live run.
\<close>

theorem dry_run_dispatches_remote_calls:
  "ApplyChanges exampleEnv True exampleCreateDelete =
     \<lparr>events =
        [Go gr1 \<lparr>errMsg = '''', remoteCall = DeleteRRSetRecordCall ''ex.com'' ''c.ex.com'' ''A'' []\<rparr>,
         Go gr1 \<lparr>errMsg = '''', remoteCall = AddZoneRRSetCall ''ex.com'' ''b.ex.com'' ''A'' [] 300\<rparr>,
         Wait gr2, Wait gr1],
      returned = None, created = 1, deleted = 1, updated = 0\<rparr>"
  by code_simp

text \<open>
  C2. The delete and create tasks are handed to their group before the wait on the
  teardown group: when the teardown task of this change set fails, the create task has
  been dispatched all the same.
\<close>

theorem teardown_failure_counterexample:
  "ApplyChanges (exampleEnv\<lparr>outcome := (\<lambda>g i. if g = gr2 then Some (Errorf ''boom'') else None)\<rparr>)
     False exampleUpdate =
   \<lparr>events =
      [Go gr2 \<lparr>errMsg = ''update old a.ex.com A 1.1.1.1'',
               remoteCall = DeleteRRSetRecordCall ''ex.com'' ''a.ex.com'' ''A'' [''1.1.1.1'']\<rparr>,
       Go gr1 \<lparr>errMsg = ''create b.ex.com A 3.3.3.3'',
               remoteCall = AddZoneRRSetCall ''ex.com'' ''b.ex.com'' ''A''
                 [\<lparr>Content = [AString ''3.3.3.3''], Meta = [], Enabled = True\<rparr>] 300\<rparr>,
       Wait gr2],
    returned = Some (Wrap ''gcore: apply changes''
                 (Wrap ''update old a.ex.com A 1.1.1.1'' (Errorf ''boom''))),
    created = 1, deleted = 0, updated = 1\<rparr>"
  by code_simp

text \<open>
  C2, amended. When a teardown task fails, \<open>ApplyChanges\<close> returns at the wait on the
  teardown group: the error of one of the failed teardown tasks, wrapped with the
  prefix \<open>gcore: apply changes\<close>, is returned; no update-add task is dispatched and
  the final wait is not reached. The events are the dispatches of the teardown, delete
  and create loops and the wait on the teardown group.
\<close>

theorem teardown_failure_aborts:
  assumes "hasChanges env chs"
    and "\<exists>i < length (teardownTasks env dryRun chs). outcome env gr2 i \<noteq> None"
  shows "(\<exists>i e. i < length (teardownTasks env dryRun chs) \<and> outcome env gr2 i = Some e \<and>
            returned (ApplyChanges env dryRun chs) =
              Some (Wrap ''gcore: apply changes'' (Wrap (errMsg (teardownTasks env dryRun chs ! i)) e)))
         \<and> events (ApplyChanges env dryRun chs) =
              map (Go gr2) (teardownTasks env dryRun chs) @ map (Go gr1) (deleteTasks env dryRun chs)
              @ map (Go gr1) (createTasks env dryRun chs) @ [Wait gr2]"
proof -
  let ?errs = "taskErrors (outcome env gr2) (teardownTasks env dryRun chs)"
  from assms(2) have ne: "?errs \<noteq> []" by (simp add: taskErrors_nonempty_iff)
  then obtain err where w: "WaitGroup (firstError env gr2) ?errs = Some err"
    by (cases "WaitGroup (firstError env gr2) ?errs") (simp_all add: WaitGroup_None_iff)
  from WaitGroup_Some_mem[OF w] obtain i e where
    ie: "i < length (teardownTasks env dryRun chs)" "outcome env gr2 i = Some e"
        "err = Wrap (errMsg (teardownTasks env dryRun chs ! i)) e"
    unfolding set_taskErrors by blast
  have "returned (ApplyChanges env dryRun chs) = Some (Wrap ''gcore: apply changes'' err)"
    using assms(1) w by (simp add: ApplyChanges_returned)
  with ie have 1: "\<exists>i e. i < length (teardownTasks env dryRun chs) \<and> outcome env gr2 i = Some e \<and>
            returned (ApplyChanges env dryRun chs) =
              Some (Wrap ''gcore: apply changes'' (Wrap (errMsg (teardownTasks env dryRun chs ! i)) e))"
    by blast
  have 2: "events (ApplyChanges env dryRun chs) =
              map (Go gr2) (teardownTasks env dryRun chs) @ map (Go gr1) (deleteTasks env dryRun chs)
              @ map (Go gr1) (createTasks env dryRun chs) @ [Wait gr2]"
    using assms(1) ne by (simp add: ApplyChanges_events teardownFailed_def)
  from 1 2 show ?thesis by blast
qed

lemma exampleUpdate_teardownTasks:
  "teardownTasks (exampleEnv\<lparr>outcome := (\<lambda>g i. if g = gr2 then Some (Errorf ''boom'') else None)\<rparr>)
     False exampleUpdate =
   [\<lparr>errMsg = ''update old a.ex.com A 1.1.1.1'',
     remoteCall = DeleteRRSetRecordCall ''ex.com'' ''a.ex.com'' ''A'' [''1.1.1.1'']\<rparr>]"
  by code_simp

theorem teardown_failure_aborts_witness:
  "events (ApplyChanges (exampleEnv\<lparr>outcome := (\<lambda>g i. if g = gr2 then Some (Errorf ''boom'') else None)\<rparr>)
     False exampleUpdate) =
   map (Go gr2) (teardownTasks (exampleEnv\<lparr>outcome := (\<lambda>g i. if g = gr2 then Some (Errorf ''boom'') else None)\<rparr>) False exampleUpdate)
   @ map (Go gr1) (deleteTasks (exampleEnv\<lparr>outcome := (\<lambda>g i. if g = gr2 then Some (Errorf ''boom'') else None)\<rparr>) False exampleUpdate)
   @ map (Go gr1) (createTasks (exampleEnv\<lparr>outcome := (\<lambda>g i. if g = gr2 then Some (Errorf ''boom'') else None)\<rparr>) False exampleUpdate)
   @ [Wait gr2]"
proof -
  let ?env = "exampleEnv\<lparr>outcome := (\<lambda>g i. if g = gr2 then Some (Errorf ''boom'') else None)\<rparr>"
  have h1: "hasChanges ?env exampleUpdate" by (simp add: exampleEnv_def)
  have h2: "\<exists>i < length (teardownTasks ?env False exampleUpdate). outcome ?env gr2 i \<noteq> None"
    unfolding exampleUpdate_teardownTasks by (simp add: exampleEnv_def)
  from teardown_failure_aborts[OF h1 h2] show ?thesis by blast
qed

text \<open>
  C6. Outside a dry run every teardown task is handed to the teardown group before the
  wait on that group, and every update-add task is handed to its group after that wait
  (and only when no teardown task failed). For an \<open>updateNew\<close> record with a resolved
  zone and a matching \<open>updateOld\<close> entry, the teardown task is \<open>DeleteRRSetRecord\<close> with
  the old targets that are not new ones, and the update-add task is \<open>AddZoneRRSet\<close> with
  the new targets that are not old ones; neither exists when its list is empty.
\<close>

theorem teardown_completes_before_update_add:
  assumes "hasChanges env chs"
  shows "events (ApplyChanges env False chs) =
           map (Go gr2) (teardownTasks env False chs)
           @ map (Go gr1) (deleteTasks env False chs @ createTasks env False chs)
           @ [Wait gr2]
           @ (if teardownFailed env False chs then []
              else map (Go gr1) (updateAddTasks env False chs) @ [Wait gr1])
       \<and> (\<forall>c \<in> set (UpdateNew chs). \<forall>prev zone.
             zone = zoneFromDNSNameGetter (GetDomainFilter env) (DNSName c) \<and> zone \<noteq> '''' \<and>
             find (\<lambda>p. RecordType p = RecordType c \<and> DNSName p = DNSName c) (UpdateOld chs) = Some prev \<longrightarrow>
             teardownTasksOf False (zoneFromDNSNameGetter (GetDomainFilter env)) (UpdateOld chs) c =
               (let stale = filter (\<lambda>t. t \<notin> set (Targets c)) (Targets prev) in
                if stale = [] then []
                else [\<lparr>errMsg = Join (map (recordMsg ''update old'' c) stale) ''; '',
                       remoteCall = DeleteRRSetRecordCall zone (DNSName c) (RecordType c) stale\<rparr>])
             \<and> updateAddTasksOf False (structuredContent env) (zoneFromDNSNameGetter (GetDomainFilter env)) (UpdateOld chs) c =
               (let fresh = filter (\<lambda>t. t \<notin> set (Targets prev)) (Targets c) in
                if fresh = [] then []
                else [\<lparr>errMsg = Join (map (recordMsg ''update new'' c) fresh) ''; '',
                       remoteCall = AddZoneRRSetCall zone (DNSName c) (RecordType c)
                                      (map (newRecord (structuredContent env) c) fresh) (RecordTTL c)\<rparr>]))"
proof -
  have 1: "events (ApplyChanges env False chs) =
           map (Go gr2) (teardownTasks env False chs)
           @ map (Go gr1) (deleteTasks env False chs @ createTasks env False chs)
           @ [Wait gr2]
           @ (if teardownFailed env False chs then []
              else map (Go gr1) (updateAddTasks env False chs) @ [Wait gr1])"
    using assms by (simp add: ApplyChanges_events)
  show ?thesis
    unfolding 1 by (auto simp: teardownTasksOf_def updateAddTasksOf_def unexistingTargets_match Let_def)
qed

theorem teardown_completes_before_update_add_witness:
  "events (ApplyChanges exampleEnv False exampleUpdate) =
      [Go gr2 \<lparr>errMsg = ''update old a.ex.com A 1.1.1.1'',
               remoteCall = DeleteRRSetRecordCall ''ex.com'' ''a.ex.com'' ''A'' [''1.1.1.1'']\<rparr>,
       Go gr1 \<lparr>errMsg = ''create b.ex.com A 3.3.3.3'',
               remoteCall = AddZoneRRSetCall ''ex.com'' ''b.ex.com'' ''A''
                 [\<lparr>Content = [AString ''3.3.3.3''], Meta = [], Enabled = True\<rparr>] 300\<rparr>,
       Wait gr2,
       Go gr1 \<lparr>errMsg = ''update new a.ex.com A 2.2.2.2'',
               remoteCall = AddZoneRRSetCall ''ex.com'' ''a.ex.com'' ''A''
                 [\<lparr>Content = [AString ''2.2.2.2''], Meta = [], Enabled = True\<rparr>] 300\<rparr>,
       Wait gr1]"
proof -
  have h: "hasChanges exampleEnv exampleUpdate" by (simp add: exampleEnv_def)
  have T: "teardownTasks exampleEnv False exampleUpdate =
      [\<lparr>errMsg = ''update old a.ex.com A 1.1.1.1'',
        remoteCall = DeleteRRSetRecordCall ''ex.com'' ''a.ex.com'' ''A'' [''1.1.1.1'']\<rparr>]"
    by code_simp
  have D: "deleteTasks exampleEnv False exampleUpdate = []"
    by code_simp
  have C: "createTasks exampleEnv False exampleUpdate =
      [\<lparr>errMsg = ''create b.ex.com A 3.3.3.3'',
        remoteCall = AddZoneRRSetCall ''ex.com'' ''b.ex.com'' ''A''
                 [\<lparr>Content = [AString ''3.3.3.3''], Meta = [], Enabled = True\<rparr>] 300\<rparr>]"
    by code_simp
  have A: "updateAddTasks exampleEnv False exampleUpdate =
      [\<lparr>errMsg = ''update new a.ex.com A 2.2.2.2'',
        remoteCall = AddZoneRRSetCall ''ex.com'' ''a.ex.com'' ''A''
                 [\<lparr>Content = [AString ''2.2.2.2''], Meta = [], Enabled = True\<rparr>] 300\<rparr>]"
    by code_simp
  have F: "\<not> teardownFailed exampleEnv False exampleUpdate"
    by code_simp
  from teardown_completes_before_update_add[OF h, THEN conjunct1]
  show ?thesis unfolding T D C A using F by simp
qed

section \<open>Properties of the SDK client\<close>

lemma zoneDetails_length: "length (zoneDetails doZone zones) = length zones"
  by (simp add: zoneDetails_def)

lemma zoneDetails_nth:
  "i < length zones \<Longrightarrow> zoneDetails doZone zones ! i = (zones ! i, getZone (doZone i) (Name (zones ! i)))"
  by (simp add: zoneDetails_def nth_enumerate_eq)

lemma set_detailErrors:
  "set (detailErrors details) = {Wrap (Name z) e | z e. (z, Inl e) \<in> set details}"
  by (force simp: detailErrors_def split: sum.splits)

lemma set_detailErrors_zoneDetails:
  "set (detailErrors (zoneDetails doZone zones)) =
     {Wrap (Name (zones ! i)) e | i e. i < length zones \<and> getZone (doZone i) (Name (zones ! i)) = Inl e}"
  unfolding set_detailErrors
  by (auto simp: in_set_conv_nth zoneDetails_length zoneDetails_nth) (metis zoneDetails_nth fst_conv snd_conv)+

text \<open>
  C8. After a successful zone listing, if the detail fetch of some listed zone fails,
  \<open>AllZonesWithRecords\<close> returns no zones (nil) and one error: the error of one failed
  fetch, wrapped with the name of its zone and then with \<open>zone info\<close>. When every detail
  fetch succeeds it returns, with no error, one fetched zone for each listed zone, in
  order; so zones are returned only when every fetch succeeded.
\<close>

theorem zone_detail_failure_fails_listing:
  assumes "AllZones doList nameFilters = (zones, None)"
  shows "((\<exists>i < length zones. \<exists>e. getZone (doZone i) (Name (zones ! i)) = Inl e) \<longrightarrow>
            (\<exists>i < length zones. \<exists>e. getZone (doZone i) (Name (zones ! i)) = Inl e \<and>
               AllZonesWithRecords doList doZone first nameFilters =
                 ([], Some (Wrap ''zone info'' (Wrap (Name (zones ! i)) e)))))
       \<and> ((\<forall>i < length zones. \<exists>zone. getZone (doZone i) (Name (zones ! i)) = Inr zone) \<longrightarrow>
            (\<exists>result. AllZonesWithRecords doList doZone first nameFilters = (result, None) \<and>
               length result = length zones \<and>
               (\<forall>i < length zones. getZone (doZone i) (Name (zones ! i)) = Inr (result ! i))))"
proof -
  let ?details = "zoneDetails doZone zones"
  let ?errs = "detailErrors ?details"
  have eq: "AllZonesWithRecords doList doZone first nameFilters =
     (case WaitGroup first ?errs of
        Some err \<Rightarrow> ([], Some (Wrap ''zone info'' err))
      | None \<Rightarrow> (map (\<lambda>(z, r). case r of Inr zone \<Rightarrow> zone | Inl errGet \<Rightarrow> z) ?details, None))"
    using assms by (simp add: AllZonesWithRecords_def Let_def)
  have fail: "\<exists>i < length zones. \<exists>e. getZone (doZone i) (Name (zones ! i)) = Inl e \<and>
               AllZonesWithRecords doList doZone first nameFilters =
                 ([], Some (Wrap ''zone info'' (Wrap (Name (zones ! i)) e)))"
    if "\<exists>i < length zones. \<exists>e. getZone (doZone i) (Name (zones ! i)) = Inl e"
  proof -
    from that have "set ?errs \<noteq> {}" unfolding set_detailErrors_zoneDetails by blast
    then have "?errs \<noteq> []" by auto
    then obtain err where w: "WaitGroup first ?errs = Some err"
      by (cases "WaitGroup first ?errs") (simp_all add: WaitGroup_None_iff)
    from WaitGroup_Some_mem[OF w] obtain i e where
      "i < length zones" "getZone (doZone i) (Name (zones ! i)) = Inl e" "err = Wrap (Name (zones ! i)) e"
      unfolding set_detailErrors_zoneDetails by blast
    with eq w show ?thesis by auto
  qed
  have ok: "\<exists>result. AllZonesWithRecords doList doZone first nameFilters = (result, None) \<and>
               length result = length zones \<and>
               (\<forall>i < length zones. getZone (doZone i) (Name (zones ! i)) = Inr (result ! i))"
    if all: "\<forall>i < length zones. \<exists>zone. getZone (doZone i) (Name (zones ! i)) = Inr zone"
  proof -
    from all have "set ?errs = {}" unfolding set_detailErrors_zoneDetails by auto
    then have "WaitGroup first ?errs = None" by (simp add: WaitGroup_def)
    with eq have r: "AllZonesWithRecords doList doZone first nameFilters =
        (map (\<lambda>(z, r). case r of Inr zone \<Rightarrow> zone | Inl errGet \<Rightarrow> z) ?details, None)" by simp
    have "getZone (doZone i) (Name (zones ! i)) =
            Inr (map (\<lambda>(z, r). case r of Inr zone \<Rightarrow> zone | Inl errGet \<Rightarrow> z) ?details ! i)"
      if "i < length zones" for i
      using that all by (auto simp: zoneDetails_length zoneDetails_nth)
    with r show ?thesis by (auto simp: zoneDetails_length)
  qed
  from fail ok show ?thesis by blast
qed

theorem zone_detail_failure_fails_listing_witness:
  "AllZones exampleList [] = (exampleZones, None)
   \<and> getZone (exampleDetail 1) (Name (exampleZones ! 1)) = Inl (Wrap ''get zone b.com'' (APIError 500 ''boom''))
   \<and> AllZonesWithRecords exampleList exampleDetail 0 [] =
        ([], Some (Wrap ''zone info'' (Wrap ''b.com'' (Wrap ''get zone b.com'' (APIError 500 ''boom'')))))"
proof -
  have h: "AllZones exampleList [] = (exampleZones, None)"
    by code_simp
  have g0: "getZone (exampleDetail 0) (Name (exampleZones ! 0)) = Inr (exampleZones ! 0)"
    by code_simp
  have g1: "getZone (exampleDetail 1) (Name (exampleZones ! 1)) = Inl (Wrap ''get zone b.com'' (APIError 500 ''boom''))"
    by code_simp
  have n1: "Name (exampleZones ! 1) = ''b.com''"
    by code_simp
  have len: "length exampleZones = 2"
    by code_simp
  have "\<exists>i < length exampleZones. \<exists>e. getZone (exampleDetail i) (Name (exampleZones ! i)) = Inl e"
    using g1 len by (intro exI[of _ 1]) simp
  with zone_detail_failure_fails_listing[OF h, of exampleDetail 0]
  obtain i e where ie: "i < length exampleZones"
      "getZone (exampleDetail i) (Name (exampleZones ! i)) = Inl e"
      "AllZonesWithRecords exampleList exampleDetail 0 [] =
         ([], Some (Wrap ''zone info'' (Wrap (Name (exampleZones ! i)) e)))"
    by blast
  from ie(1) len have "i = 0 \<or> i = 1" by auto
  with ie(2) g0 have "i = 1" by auto
  with ie g1 n1 h show ?thesis by simp
qed

lemma isNotFound_Wrap: "isNotFound (Wrap msg err) = isNotFound err"
  by (simp add: isNotFound_def)

lemma remainingRecords_filter:
  "remainingRecords contents records =
     filter (\<lambda>r. Content r \<noteq> [] \<and> ContentToString r \<notin> set contents) records"
  by (induction records) (auto simp: targetExists_iff)

text \<open>
  C9. A fetched RRSet with no records is left as it is: \<open>DeleteRRSetRecord\<close> returns nil
  after the GET, and sends no DELETE, although removing the contents leaves no records.
\<close>

theorem DeleteRRSetRecord_keeps_empty_rrset:
  "fst (DeleteRRSetRecord remoteTransport ''ex.com'' ''a.ex.com'' ''A'' [''1.1.1.1''] emptyRRSetRemote) = None
   \<and> requests (snd (DeleteRRSetRecord remoteTransport ''ex.com'' ''a.ex.com'' ''A'' [''1.1.1.1''] emptyRRSetRemote))
       = [(''GET'', [''/v2/zones'', ''ex.com'', ''a.ex.com'', ''A''])]
   \<and> rrsets (snd (DeleteRRSetRecord remoteTransport ''ex.com'' ''a.ex.com'' ''A'' [''1.1.1.1''] emptyRRSetRemote))
        [''/v2/zones'', ''ex.com'', ''a.ex.com'', ''A'']
       = Some \<lparr>RRType = ''A'', TTL = 300, Records = [], Filters = [], RRSetMeta = []\<rparr>"
  by code_simp

text \<open>
  C9, amended. \<open>DeleteRRSetRecord\<close> returns nil when the GET of the RRSet reports not
  found, and nil, with no further request, when the fetched RRSet has no records. When
  the fetched RRSet has records and none is left after the records without content and
  the records whose text is among the given contents are removed, it sends the DELETE
  of the whole RRSet and returns nil when that succeeds or reports not found, and the
  wrapped error otherwise.
\<close>

theorem DeleteRRSetRecord_not_found_and_emptied:
  "(\<forall>err s1. doGet c (rrsetURI zone name recordType) s = (Inl err, s1) \<and> isNotFound err \<longrightarrow>
      DeleteRRSetRecord c zone name recordType contents s = (None, s1))
   \<and> (\<forall>rrSet s1. doGet c (rrsetURI zone name recordType) s = (Inr rrSet, s1) \<and> Records rrSet = [] \<longrightarrow>
      DeleteRRSetRecord c zone name recordType contents s = (None, s1))
   \<and> (\<forall>rrSet s1. doGet c (rrsetURI zone name recordType) s = (Inr rrSet, s1) \<and> Records rrSet \<noteq> [] \<and>
        filter (\<lambda>r. Content r \<noteq> [] \<and> ContentToString r \<notin> set contents) (Records rrSet) = [] \<longrightarrow>
      DeleteRRSetRecord c zone name recordType contents s =
        (case doDelete c (rrsetURI zone name recordType) s1 of
           (None, s2) \<Rightarrow> (None, s2)
         | (Some err, s2) \<Rightarrow>
             if isNotFound err then (None, s2)
             else (Some (Wrap ''delete rrset'' (Wrap ''delete record request'' err)), s2)))"
  by (auto simp: DeleteRRSetRecord_def getRRSet_def DeleteRRSet_def isNotFound_Wrap
        remainingRecords_filter Let_def split: prod.splits sum.splits option.splits)

theorem DeleteRRSetRecord_not_found_and_emptied_witness:
  "DeleteRRSetRecord remoteTransport ''ex.com'' ''a.ex.com'' ''A'' [''1.1.1.1'']
       \<lparr>rrsets = Map.empty, requests = []\<rparr>
     = (None, \<lparr>rrsets = Map.empty, requests = [(''GET'', rrsetURI ''ex.com'' ''a.ex.com'' ''A'')]\<rparr>)
   \<and> fst (DeleteRRSetRecord remoteTransport ''ex.com'' ''a.ex.com'' ''A'' [''1.1.1.1''] oneValueRemote) = None
   \<and> requests (snd (DeleteRRSetRecord remoteTransport ''ex.com'' ''a.ex.com'' ''A'' [''1.1.1.1''] oneValueRemote))
       = [(''GET'', rrsetURI ''ex.com'' ''a.ex.com'' ''A''), (''DELETE'', rrsetURI ''ex.com'' ''a.ex.com'' ''A'')]"
proof -
  let ?u = "rrsetURI ''ex.com'' ''a.ex.com'' ''A''"
  let ?s0 = "\<lparr>rrsets = Map.empty, requests = []\<rparr>"
  have g0: "doGet remoteTransport ?u ?s0 =
      (Inl (APIError 404 ''not found''), \<lparr>rrsets = Map.empty, requests = [(''GET'', ?u)]\<rparr>)"
    by (simp add: remoteTransport_def)
  have nf: "isNotFound (APIError 404 ''not found'')"
    by (simp add: isNotFound_def)
  note claim = DeleteRRSetRecord_not_found_and_emptied
  have a: "DeleteRRSetRecord remoteTransport ''ex.com'' ''a.ex.com'' ''A'' [''1.1.1.1''] ?s0
      = (None, \<lparr>rrsets = Map.empty, requests = [(''GET'', ?u)]\<rparr>)"
    using claim[of remoteTransport "''ex.com''" "''a.ex.com''" "''A''" ?s0 "[''1.1.1.1'']"] g0 nf
    by blast
  let ?rr = "\<lparr>RRType = ''A'', TTL = 300,
              Records = [\<lparr>Content = [AString ''1.1.1.1''], Meta = [], Enabled = True\<rparr>],
              Filters = [], RRSetMeta = []\<rparr>"
  let ?s1 = "oneValueRemote\<lparr>requests := [(''GET'', ?u)]\<rparr>"
  have g1: "doGet remoteTransport ?u oneValueRemote = (Inr ?rr, ?s1)"
    by (simp add: remoteTransport_def oneValueRemote_def)
  have r1: "Records ?rr \<noteq> []" by simp
  have c1: "ContentToString \<lparr>Content = [AString ''1.1.1.1''], Meta = [], Enabled = True\<rparr> = ''1.1.1.1''"
    by (simp add: ContentToString_def)
  have f1: "filter (\<lambda>r. Content r \<noteq> [] \<and> ContentToString r \<notin> set [''1.1.1.1'']) (Records ?rr) = []"
    by (simp add: c1)
  have b: "DeleteRRSetRecord remoteTransport ''ex.com'' ''a.ex.com'' ''A'' [''1.1.1.1''] oneValueRemote =
        (case doDelete remoteTransport ?u ?s1 of
           (None, s2) \<Rightarrow> (None, s2)
         | (Some err, s2) \<Rightarrow>
             if isNotFound err then (None, s2)
             else (Some (Wrap ''delete rrset'' (Wrap ''delete record request'' err)), s2))"
    using claim[of remoteTransport "''ex.com''" "''a.ex.com''" "''A''" oneValueRemote "[''1.1.1.1'']"] g1 r1 f1
    by blast
  have d: "doDelete remoteTransport ?u ?s1 =
      (None, ?s1\<lparr>rrsets := (rrsets ?s1)(?u := None), requests := [(''GET'', ?u), (''DELETE'', ?u)]\<rparr>)"
    by (simp add: remoteTransport_def oneValueRemote_def)
  from a b d show ?thesis by simp
qed

section \<open>Properties of a pass against the remote service\<close>

lemma exec_rrsets:
  "rrsets (snd (execCall remoteTransport call s)) =
     (rrsets s)(callURI call := callEffect call (rrsets s (callURI call)))"
proof (cases call)
  case (DeleteRRSetRecordCall zone name recordType contents)
  show ?thesis
    unfolding DeleteRRSetRecordCall
    by (cases "rrsets s (rrsetURI zone name recordType)")
       (auto simp: DeleteRRSetRecord_def getRRSet_def DeleteRRSet_def UpdateRRSet_def remoteTransport_def
          isNotFound_def Let_def fun_upd_idem split: option.splits)
next
  case (AddZoneRRSetCall zone name recordType vals ttl)
  show ?thesis
    unfolding AddZoneRRSetCall
    by (cases "rrsets s (rrsetURI zone name recordType)")
       (auto simp: AddZoneRRSet_def getRRSet_def CreateRRSet_def UpdateRRSet_def remoteTransport_def Let_def)
qed

lemma exec_succeeds: "fst (execCall remoteTransport call s) = None"
proof (cases call)
  case (DeleteRRSetRecordCall zone name recordType contents)
  show ?thesis
    unfolding DeleteRRSetRecordCall
    by (cases "rrsets s (rrsetURI zone name recordType)")
       (auto simp: DeleteRRSetRecord_def getRRSet_def DeleteRRSet_def UpdateRRSet_def remoteTransport_def
          isNotFound_def Let_def split: option.splits)
next
  case (AddZoneRRSetCall zone name recordType vals ttl)
  show ?thesis
    unfolding AddZoneRRSetCall
    by (cases "rrsets s (rrsetURI zone name recordType)")
       (auto simp: AddZoneRRSet_def getRRSet_def CreateRRSet_def UpdateRRSet_def remoteTransport_def Let_def)
qed

lemma run_rrsets:
  "rrsets (runTasks remoteTransport ts s) u =
     foldl (\<lambda>v t. callEffect (remoteCall t) v) (rrsets s u) (filter (\<lambda>t. callURI (remoteCall t) = u) ts)"
proof (induction ts arbitrary: s)
  case Nil
  then show ?case by (simp add: runTasks_def)
next
  case (Cons t ts)
  have "runTasks remoteTransport (t # ts) s =
          runTasks remoteTransport ts (snd (execCall remoteTransport (remoteCall t) s))"
    by (simp add: runTasks_def)
  then show ?case
    using Cons.IH[of "snd (execCall remoteTransport (remoteCall t) s)"]
    by (simp add: exec_rrsets)
qed

lemma slotValues_delete:
  assumes "case v of None \<Rightarrow> True | Some rr \<Rightarrow> list_all (\<lambda>r. Content r \<noteq> []) (Records rr)"
  shows "slotValues (callEffect (DeleteRRSetRecordCall zone name recordType contents) v) =
           filter (\<lambda>x. x \<notin> set contents) (slotValues v)"
proof (cases v)
  case None
  then show ?thesis by (simp add: slotValues_def)
next
  case (Some rr)
  with assms have c: "list_all (\<lambda>r. Content r \<noteq> []) (Records rr)" by simp
  have f: "remainingRecords contents (Records rr) = filter (\<lambda>r. ContentToString r \<notin> set contents) (Records rr)"
    unfolding remainingRecords_filter using c by (auto simp: list_all_iff intro: filter_cong)
  have m: "map ContentToString (filter (\<lambda>r. ContentToString r \<notin> set contents) (Records rr)) =
        filter (\<lambda>x. x \<notin> set contents) (map ContentToString (Records rr))"
    by (simp add: filter_map comp_def)
  show ?thesis
    using Some f m by (auto simp: slotValues_def)
qed

lemma slotValues_delete_disjoint:
  "set (slotValues (callEffect (DeleteRRSetRecordCall zone name recordType contents) v)) \<inter> set contents = {}"
  by (cases v) (auto simp: slotValues_def remainingRecords_filter)

lemma slotValues_add:
  "slotValues (callEffect (AddZoneRRSetCall zone name recordType values ttl) v) =
     map ContentToString values @ slotValues v"
  by (cases v) (auto simp: slotValues_def)

lemma content_after_delete:
  assumes "case v of None \<Rightarrow> True | Some rr \<Rightarrow> list_all (\<lambda>r. Content r \<noteq> []) (Records rr)"
  shows "case callEffect (DeleteRRSetRecordCall zone name recordType contents) v of
           None \<Rightarrow> True | Some rr \<Rightarrow> list_all (\<lambda>r. Content r \<noteq> []) (Records rr)"
  using assms by (cases v) (auto simp: remainingRecords_filter list_all_iff)

lemma plain_newRecord:
  "plainType (RecordType c) \<Longrightarrow> ContentToString (newRecord structured c v) = v"
  by (simp add: plainType_def newRecord_def SetContent_def ContentFromValue_def ContentToString_def Let_def)

lemma filter_concat_map_key:
  assumes "distinct (map k xs)" and "x \<in> set xs"
    and "\<forall>y \<in> set xs. \<forall>t \<in> set (f y). key t = k y"
  shows "filter (\<lambda>t. key t = k x) (concat (map f xs)) = f x"
  using assms
proof (induction xs)
  case Nil
  then show ?case by simp
next
  case (Cons a xs)
  show ?case
  proof (cases "x = a")
    case True
    have 1: "filter (\<lambda>t. key t = k x) (f a) = f a"
      using Cons.prems(3) True by (auto intro: filter_True)
    have "\<forall>y \<in> set xs. k y \<noteq> k a" using Cons.prems(1) by (auto simp: image_iff)
    then have 2: "filter (\<lambda>t. key t = k x) (concat (map f xs)) = []"
      using Cons.prems(3) True by (auto simp: filter_empty_conv)
    from 1 2 True show ?thesis by simp
  next
    case False
    with Cons.prems have x: "x \<in> set xs" and ka: "k a \<noteq> k x" by auto
    have 1: "filter (\<lambda>t. key t = k x) (f a) = []"
      using Cons.prems(3) ka by (auto simp: filter_empty_conv)
    from Cons.IH[OF _ x] Cons.prems 1 show ?thesis by simp
  qed
qed

lemma filter_concat_map_other:
  assumes "\<forall>y \<in> set xs. k y \<noteq> u" and "\<forall>y \<in> set xs. \<forall>t \<in> set (f y). key t = k y"
  shows "filter (\<lambda>t. key t = u) (concat (map f xs)) = []"
  using assms by (auto simp: filter_empty_conv)


lemma mset_eq_short: "mset xs = mset ys \<Longrightarrow> length ys \<le> 1 \<Longrightarrow> xs = ys"
proof -
  assume m: "mset xs = mset ys" and l: "length ys \<le> 1"
  from m have len: "length xs = length ys" by (rule mset_eq_length)
  show "xs = ys"
  proof (cases ys)
    case Nil
    with len show ?thesis by simp
  next
    case (Cons y ys')
    with l have ys: "ys = [y]" by simp
    with len obtain x where xs: "xs = [x]" by (cases xs) auto
    from m xs ys show ?thesis by simp
  qed
qed

lemma mset_split_exact:
  fixes X Y T A :: "'a multiset"
  assumes "X + Y = T + A" and "T \<subseteq># X" and "A \<subseteq># Y"
  shows "X = T \<and> Y = A"
proof -
  from assms(2) obtain X' where X: "X = T + X'" by (auto simp: mset_subset_eq_exists_conv)
  from assms(3) obtain Y' where Y: "Y = A + Y'" by (auto simp: mset_subset_eq_exists_conv)
  from assms(1) X Y have "(T + A) + (X' + Y') = (T + A) + {#}" by (simp add: ac_simps)
  then have "X' + Y' = {#}" by (simp only: add_left_cancel)
  with X Y show ?thesis by simp
qed

lemma taskErrors_all_succeed: "\<forall>i. out i = None \<Longrightarrow> taskErrors out ts = []"
proof -
  assume "\<forall>i. out i = None"
  then have "set (taskErrors out ts) = {}" unfolding set_taskErrors by simp
  then show ?thesis by simp
qed

lemma dispatched_Cons_Wait: "dispatched (Wait g # evs) = dispatched evs"
  by (simp add: dispatched_def)

lemma dispatched_Nil: "dispatched [] = []"
  by (simp add: dispatched_def)

lemma dispatched_all_succeed:
  assumes "hasChanges env chs" and "\<forall>g i. outcome env g i = None"
  shows "dispatched (events (ApplyChanges env dryRun chs)) =
           teardownTasks env dryRun chs @ deleteTasks env dryRun chs @ createTasks env dryRun chs
           @ updateAddTasks env dryRun chs"
    and "returned (ApplyChanges env dryRun chs) = None"
  using assms
  by (simp_all add: ApplyChanges_events ApplyChanges_returned teardownFailed_def taskErrors_all_succeed
      dispatched_append dispatched_map_Go dispatched_Wait dispatched_Cons_Wait dispatched_Nil WaitGroup_def)

lemma teardownTasksOf_uri:
  "t \<in> set (teardownTasksOf dryRun (zoneFromDNSNameGetter (GetDomainFilter env)) old d)
   \<Longrightarrow> callURI (remoteCall t) = entryURI env d"
  by (auto simp: teardownTasksOf_def entryURI_def Let_def split: if_splits)

lemma deleteTasksOf_uri:
  "t \<in> set (deleteTasksOf dryRun (zoneFromDNSNameGetter (GetDomainFilter env)) d)
   \<Longrightarrow> callURI (remoteCall t) = entryURI env d"
  by (auto simp: deleteTasksOf_def entryURI_def Let_def split: if_splits)

lemma createTasksOf_uri:
  "t \<in> set (createTasksOf dryRun structured (zoneFromDNSNameGetter (GetDomainFilter env)) c)
   \<Longrightarrow> callURI (remoteCall t) = entryURI env c"
  by (auto simp: createTasksOf_def entryURI_def Let_def split: if_splits)

lemma updateAddTasksOf_uri:
  "t \<in> set (updateAddTasksOf dryRun structured (zoneFromDNSNameGetter (GetDomainFilter env)) old c)
   \<Longrightarrow> callURI (remoteCall t) = entryURI env c"
  by (auto simp: updateAddTasksOf_def entryURI_def Let_def split: if_splits)

lemma slot_after_run:
  "rrsets (runTasks remoteTransport (sched1 @ sched2) s0) u =
     foldl (\<lambda>v t. callEffect (remoteCall t) v)
       (foldl (\<lambda>v t. callEffect (remoteCall t) v) (rrsets s0 u)
          (filter (\<lambda>t. callURI (remoteCall t) = u) sched1))
       (filter (\<lambda>t. callURI (remoteCall t) = u) sched2)"
  by (simp add: run_rrsets)

lemma remoteValues_slot: "remoteValues s u = slotValues (rrsets s u)"
  by (simp add: remoteValues_def slotValues_def)

text \<open>What the tasks of one RRSet are, under distinct addresses.\<close>

lemma tasks_of_create_entry:
  assumes d: "distinct (map (entryURI env) (Create chs @ Delete chs @ UpdateNew chs))"
    and c: "c \<in> set (Create chs)"
  shows "filter (\<lambda>t. callURI (remoteCall t) = entryURI env c)
           (teardownTasks env dryRun chs @ deleteTasks env dryRun chs @ createTasks env dryRun chs
            @ updateAddTasks env dryRun chs)
         = createTasksOf dryRun (structuredContent env) (zoneFromDNSNameGetter (GetDomainFilter env)) c"
proof -
  let ?u = "entryURI env c"
  from d have dc: "distinct (map (entryURI env) (Create chs))" by simp
  from d c have oD: "\<forall>y \<in> set (Delete chs). entryURI env y \<noteq> ?u" by (auto simp: image_iff)
  from d c have oU: "\<forall>y \<in> set (UpdateNew chs). entryURI env y \<noteq> ?u" by (auto simp: image_iff)
  have T: "filter (\<lambda>t. callURI (remoteCall t) = ?u) (teardownTasks env dryRun chs) = []"
    unfolding teardownTasks_def
    by (rule filter_concat_map_other[OF oU]) (simp add: teardownTasksOf_uri)
  have A: "filter (\<lambda>t. callURI (remoteCall t) = ?u) (updateAddTasks env dryRun chs) = []"
    unfolding updateAddTasks_def
    by (rule filter_concat_map_other[OF oU]) (simp add: updateAddTasksOf_uri)
  have D: "filter (\<lambda>t. callURI (remoteCall t) = ?u) (deleteTasks env dryRun chs) = []"
    unfolding deleteTasks_def
    by (rule filter_concat_map_other[OF oD]) (simp add: deleteTasksOf_uri)
  have C: "filter (\<lambda>t. callURI (remoteCall t) = ?u) (createTasks env dryRun chs) =
      createTasksOf dryRun (structuredContent env) (zoneFromDNSNameGetter (GetDomainFilter env)) c"
    unfolding createTasks_def
    by (rule filter_concat_map_key[OF dc c]) (simp add: createTasksOf_uri)
  from T A D C show ?thesis by simp
qed

lemma tasks_of_delete_entry:
  assumes d: "distinct (map (entryURI env) (Create chs @ Delete chs @ UpdateNew chs))"
    and c: "c \<in> set (Delete chs)"
  shows "filter (\<lambda>t. callURI (remoteCall t) = entryURI env c)
           (teardownTasks env dryRun chs @ deleteTasks env dryRun chs @ createTasks env dryRun chs
            @ updateAddTasks env dryRun chs)
         = deleteTasksOf dryRun (zoneFromDNSNameGetter (GetDomainFilter env)) c"
proof -
  let ?u = "entryURI env c"
  from d have dc: "distinct (map (entryURI env) (Delete chs))" by simp
  from d c have oC: "\<forall>y \<in> set (Create chs). entryURI env y \<noteq> ?u" by (auto simp: image_iff)
  from d c have oU: "\<forall>y \<in> set (UpdateNew chs). entryURI env y \<noteq> ?u" by (auto simp: image_iff)
  have T: "filter (\<lambda>t. callURI (remoteCall t) = ?u) (teardownTasks env dryRun chs) = []"
    unfolding teardownTasks_def
    by (rule filter_concat_map_other[OF oU]) (simp add: teardownTasksOf_uri)
  have A: "filter (\<lambda>t. callURI (remoteCall t) = ?u) (updateAddTasks env dryRun chs) = []"
    unfolding updateAddTasks_def
    by (rule filter_concat_map_other[OF oU]) (simp add: updateAddTasksOf_uri)
  have C: "filter (\<lambda>t. callURI (remoteCall t) = ?u) (createTasks env dryRun chs) = []"
    unfolding createTasks_def
    by (rule filter_concat_map_other[OF oC]) (simp add: createTasksOf_uri)
  have D: "filter (\<lambda>t. callURI (remoteCall t) = ?u) (deleteTasks env dryRun chs) =
      deleteTasksOf dryRun (zoneFromDNSNameGetter (GetDomainFilter env)) c"
    unfolding deleteTasks_def
    by (rule filter_concat_map_key[OF dc c]) (simp add: deleteTasksOf_uri)
  from T A D C show ?thesis by simp
qed

lemma tasks_of_update_entry:
  assumes d: "distinct (map (entryURI env) (Create chs @ Delete chs @ UpdateNew chs))"
    and c: "c \<in> set (UpdateNew chs)"
  shows "filter (\<lambda>t. callURI (remoteCall t) = entryURI env c) (teardownTasks env dryRun chs)
           = teardownTasksOf dryRun (zoneFromDNSNameGetter (GetDomainFilter env)) (UpdateOld chs) c"
    and "filter (\<lambda>t. callURI (remoteCall t) = entryURI env c) (updateAddTasks env dryRun chs)
           = updateAddTasksOf dryRun (structuredContent env) (zoneFromDNSNameGetter (GetDomainFilter env)) (UpdateOld chs) c"
    and "filter (\<lambda>t. callURI (remoteCall t) = entryURI env c) (deleteTasks env dryRun chs) = []"
    and "filter (\<lambda>t. callURI (remoteCall t) = entryURI env c) (createTasks env dryRun chs) = []"
proof -
  let ?u = "entryURI env c"
  from d have dc: "distinct (map (entryURI env) (UpdateNew chs))" by simp
  from d c have oC: "\<forall>y \<in> set (Create chs). entryURI env y \<noteq> ?u" by (auto simp: image_iff)
  from d c have oD: "\<forall>y \<in> set (Delete chs). entryURI env y \<noteq> ?u" by (auto simp: image_iff)
  show "filter (\<lambda>t. callURI (remoteCall t) = ?u) (teardownTasks env dryRun chs)
           = teardownTasksOf dryRun (zoneFromDNSNameGetter (GetDomainFilter env)) (UpdateOld chs) c"
    unfolding teardownTasks_def
    by (rule filter_concat_map_key[OF dc c]) (simp add: teardownTasksOf_uri)
  show "filter (\<lambda>t. callURI (remoteCall t) = ?u) (updateAddTasks env dryRun chs)
           = updateAddTasksOf dryRun (structuredContent env) (zoneFromDNSNameGetter (GetDomainFilter env)) (UpdateOld chs) c"
    unfolding updateAddTasks_def
    by (rule filter_concat_map_key[OF dc c]) (simp add: updateAddTasksOf_uri)
  show "filter (\<lambda>t. callURI (remoteCall t) = ?u) (deleteTasks env dryRun chs) = []"
    unfolding deleteTasks_def
    by (rule filter_concat_map_other[OF oD]) (simp add: deleteTasksOf_uri)
  show "filter (\<lambda>t. callURI (remoteCall t) = ?u) (createTasks env dryRun chs) = []"
    unfolding createTasks_def
    by (rule filter_concat_map_other[OF oC]) (simp add: createTasksOf_uri)
qed

lemma plain_roundTrip: "plainType (RecordType c) \<Longrightarrow> valuesRoundTrip structured c"
  by (simp add: valuesRoundTrip_def list_all_iff plain_newRecord)

lemma roundTrip_map:
  "valuesRoundTrip structured c \<Longrightarrow> set vs \<subseteq> set (Targets c)
   \<Longrightarrow> map (ContentToString \<circ> newRecord structured c) vs = vs"
  by (induction vs) (auto simp: valuesRoundTrip_def list_all_iff)

lemma unexistingTargets_subset: "set (unexistingTargets c old True) \<subseteq> set (Targets c)"
  by (induction old) (auto simp: appendMissing_filter)

lemma create_slot_values:
  assumes "extractZone (DNSName c) \<noteq> ''''" and "RecordType c \<noteq> ''TXT''" and "valuesRoundTrip structured c"
  shows "slotValues (foldl (\<lambda>v t. callEffect (remoteCall t) v) v0
                       (createTasksOf False structured extractZone c))
         = Targets c @ slotValues v0"
  using assms by (simp add: createTasksOf_def Let_def slotValues_add roundTrip_map)

lemma delete_slot_values:
  assumes "extractZone (DNSName d) \<noteq> ''''"
    and "case v0 of None \<Rightarrow> True | Some rr \<Rightarrow> list_all (\<lambda>r. Content r \<noteq> []) (Records rr)"
  shows "slotValues (foldl (\<lambda>v t. callEffect (remoteCall t) v) v0 (deleteTasksOf False extractZone d))
         = filter (\<lambda>x. x \<notin> set (Targets d)) (slotValues v0)"
  using assms by (simp add: deleteTasksOf_def Let_def slotValues_delete)

lemma update_slot_values:
  assumes z: "extractZone (DNSName c) \<noteq> ''''" and p: "valuesRoundTrip structured c"
    and h: "case v0 of None \<Rightarrow> True | Some rr \<Rightarrow> list_all (\<lambda>r. Content r \<noteq> []) (Records rr)"
  shows "slotValues (foldl (\<lambda>v t. callEffect (remoteCall t) v)
                       (foldl (\<lambda>v t. callEffect (remoteCall t) v) v0
                          (teardownTasksOf False extractZone old c))
                       (updateAddTasksOf False structured extractZone old c))
         = unexistingTargets c old True
           @ filter (\<lambda>x. x \<notin> set (unexistingTargets c old False)) (slotValues v0)"
proof -
  let ?stale = "unexistingTargets c old False"
  let ?fresh = "unexistingTargets c old True"
  let ?v1 = "foldl (\<lambda>v t. callEffect (remoteCall t) v) v0 (teardownTasksOf False extractZone old c)"
  have v1: "slotValues ?v1 = filter (\<lambda>x. x \<notin> set ?stale) (slotValues v0)"
    using z h by (cases "?stale = []") (simp_all add: teardownTasksOf_def Let_def slotValues_delete)
  have "slotValues (foldl (\<lambda>v t. callEffect (remoteCall t) v) ?v1
                      (updateAddTasksOf False structured extractZone old c))
        = ?fresh @ slotValues ?v1"
    using z p by (cases "?fresh = []")
       (simp_all add: updateAddTasksOf_def Let_def slotValues_add roundTrip_map unexistingTargets_subset)
  with v1 show ?thesis by simp
qed

lemma createTasksOf_short: "length (createTasksOf dryRun structured extractZone c) \<le> 1"
  by (simp add: createTasksOf_def Let_def)

lemma deleteTasksOf_short: "length (deleteTasksOf dryRun extractZone c) \<le> 1"
  by (simp add: deleteTasksOf_def Let_def)

lemma teardownTasksOf_short: "length (teardownTasksOf dryRun extractZone old c) \<le> 1"
  by (simp add: teardownTasksOf_def Let_def)

lemma updateAddTasksOf_short: "length (updateAddTasksOf dryRun structured extractZone old c) \<le> 1"
  by (simp add: updateAddTasksOf_def Let_def)

lemma update_diff_sets:
  assumes "find (\<lambda>p. RecordType p = RecordType c \<and> DNSName p = DNSName c) old = Some prev"
    and "set vals = set (Targets prev)"
  shows "set (unexistingTargets c old True @ filter (\<lambda>x. x \<notin> set (unexistingTargets c old False)) vals)
           = set (Targets c)"
    and "distinct (Targets c) \<Longrightarrow> distinct vals \<Longrightarrow>
         distinct (unexistingTargets c old True @ filter (\<lambda>x. x \<notin> set (unexistingTargets c old False)) vals)"
  using assms by (auto simp: unexistingTargets_match)

text \<open>
  C1. Two change sets with a single create entry, applied outside a dry run with
  success. A TXT record is skipped, so the remote side holds none of its targets; an A
  record created where the remote RRSet already holds a value extends the RRSet, so
  the remote side holds the former value besides the target.
\<close>

theorem apply_reaches_desired_values_counterexample:
  "returned (ApplyChanges exampleEnv False exampleTXT) = None
   \<and> dispatched (events (ApplyChanges exampleEnv False exampleTXT)) = []
   \<and> remoteValues (runTasks remoteTransport (dispatched (events (ApplyChanges exampleEnv False exampleTXT)))
                     \<lparr>rrsets = Map.empty, requests = []\<rparr>)
        (rrsetURI ''ex.com'' ''t.ex.com'' ''TXT'') = []
   \<and> returned (ApplyChanges exampleEnv False exampleCreate) = None
   \<and> remoteValues (runTasks remoteTransport (dispatched (events (ApplyChanges exampleEnv False exampleCreate)))
                     oneValueRemote)
        (rrsetURI ''ex.com'' ''a.ex.com'' ''A'') = [''2.2.2.2'', ''1.1.1.1'']"
  by code_simp

text \<open>
  C1, amended. The change set is applied outside a dry run to the modelled remote
  service, on which every call succeeds (\<open>exec_succeeds\<close>), and the endpoints of the create, delete and
  update groups address pairwise distinct RRSets. Then \<open>ApplyChanges\<close> returns nil and,
  whatever the order in which the dispatched tasks took effect (teardown tasks before
  the teardown wait, update-add tasks after it), at the end:
  \<^item> for a create entry with a resolved zone and a type other than TXT, whose targets
    are the text of the records built from them, whose RRSet held no value before: the
    remote values are its targets, in order;
  \<^item> for a delete entry with a resolved zone whose RRSet's records all have content:
    the remote values are the former ones without its targets;
  \<^item> for an update entry with a resolved zone, whose targets are the text of the records
    built from them, with a matching old entry, whose RRSet held as a set the old
    targets (all records with content): the set of remote values is the set of the new
    targets, and has no duplicate when neither the new targets nor the former values
    have one.
  A target is the text of the record built from it for every record type but MX, CAA,
  SRV, HTTPS and SCVB (\<open>plain_roundTrip\<close>).
  Create entries of type TXT and entries whose name is in no zone are skipped.
\<close>

theorem apply_reaches_desired_values:
  assumes hc: "hasChanges env chs"
    and ok: "\<forall>g i. outcome env g i = None"
    and dist: "distinct (map (entryURI env) (Create chs @ Delete chs @ UpdateNew chs))"
    and vs: "validSchedule env chs sched1 sched2"
  shows "returned (ApplyChanges env False chs) = None
    \<and> (\<forall>c \<in> set (Create chs).
          zoneFromDNSNameGetter (GetDomainFilter env) (DNSName c) \<noteq> '''' \<and> RecordType c \<noteq> ''TXT'' \<and>
          valuesRoundTrip (structuredContent env) c \<and> remoteValues s0 (entryURI env c) = [] \<longrightarrow>
          remoteValues (runTasks remoteTransport (sched1 @ sched2) s0) (entryURI env c) = Targets c)
    \<and> (\<forall>d \<in> set (Delete chs).
          zoneFromDNSNameGetter (GetDomainFilter env) (DNSName d) \<noteq> '''' \<and>
          recordsHaveContent s0 (entryURI env d) \<longrightarrow>
          remoteValues (runTasks remoteTransport (sched1 @ sched2) s0) (entryURI env d) =
            filter (\<lambda>v. v \<notin> set (Targets d)) (remoteValues s0 (entryURI env d)))
    \<and> (\<forall>c \<in> set (UpdateNew chs). \<forall>prev.
          zoneFromDNSNameGetter (GetDomainFilter env) (DNSName c) \<noteq> '''' \<and>
          valuesRoundTrip (structuredContent env) c \<and>
          find (\<lambda>p. RecordType p = RecordType c \<and> DNSName p = DNSName c) (UpdateOld chs) = Some prev \<and>
          recordsHaveContent s0 (entryURI env c) \<and>
          set (remoteValues s0 (entryURI env c)) = set (Targets prev) \<longrightarrow>
          set (remoteValues (runTasks remoteTransport (sched1 @ sched2) s0) (entryURI env c)) = set (Targets c)
          \<and> (distinct (Targets c) \<and> distinct (remoteValues s0 (entryURI env c)) \<longrightarrow>
               distinct (remoteValues (runTasks remoteTransport (sched1 @ sched2) s0) (entryURI env c))))"
proof -
  let ?ez = "zoneFromDNSNameGetter (GetDomainFilter env)"
  let ?T = "teardownTasks env False chs" and ?D = "deleteTasks env False chs"
  let ?C = "createTasks env False chs" and ?A = "updateAddTasks env False chs"
  let ?all = "?T @ ?D @ ?C @ ?A"
  let ?eff = "\<lambda>v t. callEffect (remoteCall t) v"
  let ?end = "runTasks remoteTransport (sched1 @ sched2) s0"
  note disp = dispatched_all_succeed[OF hc ok, of False]
  from vs disp(1) have m: "mset sched1 + mset sched2 = mset ?all"
    and mT: "mset ?T \<subseteq># mset sched1" and mA: "mset ?A \<subseteq># mset sched2"
    by (simp_all add: validSchedule_def)
  have both: "mset (filter P (sched1 @ sched2)) = mset (filter P ?all)" for P
  proof -
    have "mset (filter P (sched1 @ sched2)) = filter_mset P (mset sched1 + mset sched2)" by simp
    also have "\<dots> = filter_mset P (mset ?all)" by (simp only: m)
    finally show ?thesis by simp
  qed
  have slot: "rrsets ?end u = foldl ?eff (rrsets s0 u) (filter (\<lambda>t. callURI (remoteCall t) = u) (sched1 @ sched2))" for u
    by (rule run_rrsets)
  have cr: "remoteValues ?end (entryURI env c) = Targets c"
    if c: "c \<in> set (Create chs)" and z: "?ez (DNSName c) \<noteq> ''''" and t: "RecordType c \<noteq> ''TXT''"
      and p: "valuesRoundTrip (structuredContent env) c" and e: "remoteValues s0 (entryURI env c) = []" for c
  proof -
    let ?P = "\<lambda>t. callURI (remoteCall t) = entryURI env c"
    have "mset (filter ?P (sched1 @ sched2)) = mset (createTasksOf False (structuredContent env) ?ez c)"
      unfolding both tasks_of_create_entry[OF dist c] ..
    then have "filter ?P (sched1 @ sched2) = createTasksOf False (structuredContent env) ?ez c"
      by (rule mset_eq_short) (rule createTasksOf_short)
    then show ?thesis
      unfolding remoteValues_slot slot using create_slot_values[of ?ez c "structuredContent env", OF z t p] e
      by (simp add: remoteValues_slot)
  qed
  have dl: "remoteValues ?end (entryURI env d) = filter (\<lambda>v. v \<notin> set (Targets d)) (remoteValues s0 (entryURI env d))"
    if d: "d \<in> set (Delete chs)" and z: "?ez (DNSName d) \<noteq> ''''"
      and h: "recordsHaveContent s0 (entryURI env d)" for d
  proof -
    let ?P = "\<lambda>t. callURI (remoteCall t) = entryURI env d"
    have "mset (filter ?P (sched1 @ sched2)) = mset (deleteTasksOf False ?ez d)"
      unfolding both tasks_of_delete_entry[OF dist d] ..
    then have "filter ?P (sched1 @ sched2) = deleteTasksOf False ?ez d"
      by (rule mset_eq_short) (rule deleteTasksOf_short)
    then show ?thesis
      unfolding remoteValues_slot slot using delete_slot_values[of ?ez d, OF z] h
      by (simp add: recordsHaveContent_def)
  qed
  have up: "remoteValues ?end (entryURI env c) =
              unexistingTargets c (UpdateOld chs) True
              @ filter (\<lambda>x. x \<notin> set (unexistingTargets c (UpdateOld chs) False)) (remoteValues s0 (entryURI env c))"
    if c: "c \<in> set (UpdateNew chs)" and z: "?ez (DNSName c) \<noteq> ''''" and p: "valuesRoundTrip (structuredContent env) c"
      and h: "recordsHaveContent s0 (entryURI env c)" for c
  proof -
    let ?P = "\<lambda>t. callURI (remoteCall t) = entryURI env c"
    let ?TO = "teardownTasksOf False ?ez (UpdateOld chs) c"
    let ?AO = "updateAddTasksOf False (structuredContent env) ?ez (UpdateOld chs) c"
    note f = tasks_of_update_entry[OF dist c, of False]
    have sum: "mset (filter ?P sched1) + mset (filter ?P sched2) = mset ?TO + mset ?AO"
    proof -
      have "mset (filter ?P sched1) + mset (filter ?P sched2) = mset (filter ?P (sched1 @ sched2))" by simp
      also have "\<dots> = mset (filter ?P ?all)" by (rule both)
      also have "\<dots> = mset ?TO + mset ?AO" by (simp add: f)
      finally show ?thesis .
    qed
    have "filter_mset ?P (mset ?T) \<subseteq># filter_mset ?P (mset sched1)"
      using mT by (rule multiset_filter_mono)
    then have sT: "mset ?TO \<subseteq># mset (filter ?P sched1)" by (simp add: f flip: mset_filter)
    have "filter_mset ?P (mset ?A) \<subseteq># filter_mset ?P (mset sched2)"
      using mA by (rule multiset_filter_mono)
    then have sA: "mset ?AO \<subseteq># mset (filter ?P sched2)" by (simp add: f flip: mset_filter)
    from mset_split_exact[OF sum sT sA]
    have "filter ?P sched1 = ?TO" and "filter ?P sched2 = ?AO"
      by (auto intro: mset_eq_short teardownTasksOf_short updateAddTasksOf_short)
    then show ?thesis
      unfolding remoteValues_slot slot_after_run using update_slot_values[of ?ez c "structuredContent env", OF z p] h
      by (simp add: recordsHaveContent_def)
  qed
  have us: "set (remoteValues ?end (entryURI env c)) = set (Targets c)
            \<and> (distinct (Targets c) \<and> distinct (remoteValues s0 (entryURI env c)) \<longrightarrow>
                 distinct (remoteValues ?end (entryURI env c)))"
    if c: "c \<in> set (UpdateNew chs)" and z: "?ez (DNSName c) \<noteq> ''''" and p: "valuesRoundTrip (structuredContent env) c"
      and f: "find (\<lambda>p. RecordType p = RecordType c \<and> DNSName p = DNSName c) (UpdateOld chs) = Some prev"
      and h: "recordsHaveContent s0 (entryURI env c)"
      and e: "set (remoteValues s0 (entryURI env c)) = set (Targets prev)" for c prev
    unfolding up[OF c z p h] using update_diff_sets[OF f e] by blast
  from disp(2) cr dl us show ?thesis
    by blast
qed

theorem apply_reaches_desired_values_witness:
  "set (remoteValues
          (runTasks remoteTransport
             (teardownTasks exampleEnv False exampleUpdate
              @ (createTasks exampleEnv False exampleUpdate @ updateAddTasks exampleEnv False exampleUpdate))
             oneValueRemote)
          (rrsetURI ''ex.com'' ''a.ex.com'' ''A'')) = {''2.2.2.2''}
   \<and> remoteValues
          (runTasks remoteTransport
             (teardownTasks exampleEnv False exampleUpdate
              @ (createTasks exampleEnv False exampleUpdate @ updateAddTasks exampleEnv False exampleUpdate))
             oneValueRemote)
          (rrsetURI ''ex.com'' ''b.ex.com'' ''A'') = [''3.3.3.3'']"
proof -
  let ?c = "\<lparr>DNSName = ''b.ex.com'', RecordType = ''A'', Targets = [''3.3.3.3''], RecordTTL = 300\<rparr>"
  let ?o = "\<lparr>DNSName = ''a.ex.com'', RecordType = ''A'', Targets = [''1.1.1.1''], RecordTTL = 300\<rparr>"
  let ?n = "\<lparr>DNSName = ''a.ex.com'', RecordType = ''A'', Targets = [''2.2.2.2''], RecordTTL = 300\<rparr>"
  let ?s1 = "teardownTasks exampleEnv False exampleUpdate"
  let ?s2 = "createTasks exampleEnv False exampleUpdate @ updateAddTasks exampleEnv False exampleUpdate"
  let ?end = "runTasks remoteTransport (?s1 @ ?s2) oneValueRemote"
  have hc: "hasChanges exampleEnv exampleUpdate" and ok: "\<forall>g i. outcome exampleEnv g i = None"
    by (simp_all add: exampleEnv_def)
  have ua: "entryURI exampleEnv ?n = rrsetURI ''ex.com'' ''a.ex.com'' ''A''"
    by code_simp
  have ub: "entryURI exampleEnv ?c = rrsetURI ''ex.com'' ''b.ex.com'' ''A''"
    by code_simp
  have neq: "rrsetURI ''ex.com'' ''b.ex.com'' ''A'' \<noteq> rrsetURI ''ex.com'' ''a.ex.com'' ''A''"
    by code_simp
  have dist: "distinct (map (entryURI exampleEnv)
                (Create exampleUpdate @ Delete exampleUpdate @ UpdateNew exampleUpdate))"
    using neq by (simp add: exampleUpdate_def ua ub)
  have D: "deleteTasks exampleEnv False exampleUpdate = []"
    by (simp add: deleteTasks_def exampleUpdate_def)
  have vs: "validSchedule exampleEnv exampleUpdate ?s1 ?s2"
    unfolding validSchedule_def dispatched_all_succeed(1)[OF hc ok] D by simp
  note claim = apply_reaches_desired_values[OF hc ok dist vs, of oneValueRemote]
  have za: "zoneFromDNSNameGetter (GetDomainFilter exampleEnv) (DNSName ?n) \<noteq> ''''"
    and zb: "zoneFromDNSNameGetter (GetDomainFilter exampleEnv) (DNSName ?c) \<noteq> ''''"
    by code_simp+
  have pl: "plainType ''A''"
    by code_simp
  have fnd: "find (\<lambda>p. RecordType p = RecordType ?n \<and> DNSName p = DNSName ?n) (UpdateOld exampleUpdate) = Some ?o"
    by (simp add: exampleUpdate_def)
  have hv: "recordsHaveContent oneValueRemote (rrsetURI ''ex.com'' ''a.ex.com'' ''A'')"
    by (simp add: recordsHaveContent_def oneValueRemote_def)
  have v0: "remoteValues oneValueRemote (rrsetURI ''ex.com'' ''a.ex.com'' ''A'') = [''1.1.1.1'']"
    by (simp add: remoteValues_def oneValueRemote_def ContentToString_def)
  have b0: "remoteValues oneValueRemote (rrsetURI ''ex.com'' ''b.ex.com'' ''A'') = []"
    using neq by (simp add: remoteValues_def oneValueRemote_def)
  have cin: "?c \<in> set (Create exampleUpdate)" and nin: "?n \<in> set (UpdateNew exampleUpdate)"
    by (simp_all add: exampleUpdate_def)
  have 1: "remoteValues ?end (entryURI exampleEnv ?c) = Targets ?c"
  proof -
    have "RecordType ?c \<noteq> ''TXT''" by simp
    moreover have "valuesRoundTrip (structuredContent exampleEnv) ?c" using pl by (simp add: plain_roundTrip)
    moreover have "remoteValues oneValueRemote (entryURI exampleEnv ?c) = []" using b0 by (simp only: ub)
    ultimately show ?thesis
      using claim[THEN conjunct2, THEN conjunct1, THEN bspec, OF cin] zb by blast
  qed
  have 2: "set (remoteValues ?end (entryURI exampleEnv ?n)) = set (Targets ?n)"
  proof -
    have "valuesRoundTrip (structuredContent exampleEnv) ?n" using pl by (simp add: plain_roundTrip)
    moreover have "recordsHaveContent oneValueRemote (entryURI exampleEnv ?n)" using hv by (simp only: ua)
    moreover have "set (remoteValues oneValueRemote (entryURI exampleEnv ?n)) = set (Targets ?o)"
      using v0 by (simp add: ua)
    ultimately show ?thesis
      using claim[THEN conjunct2, THEN conjunct2, THEN conjunct2, THEN bspec, OF nin] za fnd by blast
  qed
  from 1 2 show ?thesis unfolding ua ub by simp
qed

text \<open>
  On the remote side, the two calls that a dry run dispatches for \<open>exampleCreateDelete\<close>
  (claim C3) each send a GET and a PUT; the PUT of \<open>AddZoneRRSet\<close> replaces the TTL (60, then 300)
  of an RRSet the dry run was only to preview.
\<close>

lemma dry_run_changes_remote_state:
  "requests (runTasks remoteTransport (dispatched (events (ApplyChanges exampleEnv True exampleCreateDelete)))
               dryRunRemote) =
     [(''GET'', [''/v2/zones'', ''ex.com'', ''c.ex.com'', ''A'']),
      (''PUT'', [''/v2/zones'', ''ex.com'', ''c.ex.com'', ''A'']),
      (''GET'', [''/v2/zones'', ''ex.com'', ''b.ex.com'', ''A'']),
      (''PUT'', [''/v2/zones'', ''ex.com'', ''b.ex.com'', ''A''])]
   \<and> map_option TTL (rrsets dryRunRemote [''/v2/zones'', ''ex.com'', ''b.ex.com'', ''A'']) = Some 60
   \<and> map_option TTL
        (rrsets (runTasks remoteTransport (dispatched (events (ApplyChanges exampleEnv True exampleCreateDelete)))
                   dryRunRemote)
           [''/v2/zones'', ''ex.com'', ''b.ex.com'', ''A'']) = Some 300"
  by code_simp

text \<open>
  The counters of \<open>appliedChanges\<close> do not depend on the dry-run flag when no remote call
  fails: each is incremented before the flag is looked at.
\<close>

lemma counters_same_in_dry_run:
  assumes "\<forall>g i. outcome env g i = None"
  shows "created (ApplyChanges env True chs) = created (ApplyChanges env False chs)
       \<and> deleted (ApplyChanges env True chs) = deleted (ApplyChanges env False chs)
       \<and> updated (ApplyChanges env True chs) = updated (ApplyChanges env False chs)"
  using assms
  by (simp add: ApplyChanges_def Let_def teardownLoop_eq deleteLoop_eq createLoop_eq updateAddLoop_eq
      taskErrors_all_succeed WaitGroup_def split: prod.splits)

end
